theory Spec2Isabelle
  imports Main "HOL-Library.Sublist"
begin

section \<open>The XCCDF document model\<close>

text \<open>
  The tailoring window of \<^verbatim>\<open>src/TailoringWindow.cpp\<close> works on a benchmark document,
  a profile and a policy that the openscap library owns. An item is one of the kinds of
  \<^verbatim>\<open>xccdf_type_t\<close>; the window only distinguishes benchmark, group, rule and value and
  sends every other kind to the \<^verbatim>\<open>default\<close> branch of its switches.
\<close>

datatype xccdf_type =
  XCCDF_BENCHMARK | XCCDF_PROFILE | XCCDF_RESULT | XCCDF_RULE | XCCDF_GROUP | XCCDF_VALUE

datatype xccdf_value_type = XCCDF_TYPE_NUMBER | XCCDF_TYPE_STRING | XCCDF_TYPE_BOOLEAN

record oscap_text =
  oscap_text_get_lang :: string
  oscap_text_get_text :: string

record xccdf_select =
  xccdf_select_get_item :: string
  xccdf_select_get_selected :: bool

record xccdf_setvalue =
  xccdf_setvalue_get_item :: string
  xccdf_setvalue_get_value :: string

text \<open>
  A \<^verbatim>\<open>struct xccdf_item*\<close> is modelled by the item it points to. The window never
  changes an item of the benchmark (only the profile and the policy), so comparing two
  item pointers is comparing the items. The two child lists are what
  \<^verbatim>\<open>xccdf_group_get_values\<close> / \<^verbatim>\<open>xccdf_benchmark_get_values\<close> and
  \<^verbatim>\<open>xccdf_group_get_content\<close> / \<^verbatim>\<open>xccdf_benchmark_get_content\<close> iterate over, in
  document order.
\<close>

datatype xccdf_item = Xccdf_item
  (xccdf_item_get_type: xccdf_type)
  (xccdf_item_get_id: string)
  (xccdf_item_get_title: "oscap_text list")
  (xccdf_item_get_description: "oscap_text list")
  (xccdf_item_get_selected: bool)
  (xccdf_value_get_type: xccdf_value_type)
  (xccdf_value_get_instances: "string list")
  (xccdf_get_values: "xccdf_item list")
  (xccdf_get_content: "xccdf_item list")

record xccdf_profile =
  xccdf_profile_get_id :: string
  xccdf_profile_get_selects :: "xccdf_select list"
  xccdf_profile_get_setvalues :: "xccdf_setvalue list"
  xccdf_profile_get_title :: "oscap_text list"
  xccdf_profile_get_description :: "oscap_text list"

text \<open>
  The queries of the library that the window calls and whose code is not part of the
  window are parameters of the model: how the policy finds the select of an item among
  the selects added to it, how it evaluates a value item against the set-values of its
  profile, which text \<^verbatim>\<open>oscapTextIteratorGetPreferred\<close> picks from a list of localized
  texts, and the language tag \<^verbatim>\<open>OSCAP_LANG_DEFAULT\<close>.
\<close>

record oscap =
  xccdf_policy_get_select_by_id :: "xccdf_select list \<Rightarrow> string \<Rightarrow> xccdf_select option"
  xccdf_policy_get_value_of_item :: "xccdf_setvalue list \<Rightarrow> xccdf_item \<Rightarrow> string"
  oscapTextIteratorGetPreferred :: "oscap_text list \<Rightarrow> string"
  OSCAP_LANG_DEFAULT :: string

section \<open>Errors\<close>

text \<open>
  \<^verbatim>\<open>throw TailoringWindowException(msg)\<close> becomes \<open>Inl (TailoringWindowException msg args)\<close>
  with the message as the source writes it and the values it formats into it. A failing
  \<^verbatim>\<open>assert\<close> aborts the process and becomes \<open>Inl AssertionFailed\<close>. Using a null pointer
  where the source dereferences it unchecked becomes \<open>Inl NullPointer\<close>.
\<close>

datatype error =
  TailoringWindowException string "string list"
  | AssertionFailed
  | NullPointer

section \<open>The tree widget\<close>

text \<open>
  A \<^verbatim>\<open>QTreeWidgetItem\<close>. \<open>ti_ptr\<close> is the address of the object: the source keeps
  pointers to tree items (in the map of existing children, in a select command), and the
  model finds the item they point to by this address. Of the flags only
  \<^verbatim>\<open>Qt::ItemIsUserCheckable\<close> and \<^verbatim>\<open>Qt::ItemIsEnabled\<close> are kept (\<^verbatim>\<open>isDisabled()\<close> is
  the negation of the latter); the check state is either \<^verbatim>\<open>Qt::Checked\<close> or
  \<^verbatim>\<open>Qt::Unchecked\<close>. \<open>ti_data\<close> is the \<^verbatim>\<open>Qt::UserRole\<close> data of column 0, the
  backing item, \<open>None\<close> for a null pointer.
\<close>

datatype tree_item = Tree_item
  (ti_ptr: nat)
  (ti_text0: string)
  (ti_text1: string)
  (ti_icon: string)
  (ti_data: "xccdf_item option")
  (ti_checkable: bool)
  (ti_enabled: bool)
  (ti_checked: bool)
  (ti_children: "tree_item list")

section \<open>Undo commands and the undo stack\<close>

text \<open>
  The four subclasses of \<^verbatim>\<open>QUndoCommand\<close>, with the members their constructors store.
  The select command keeps the pointer to its tree item, the value command the pointer
  to its value item.
\<close>

datatype undo_command =
  ProfileTitleChangeUndoCommand (mOldTitle: string) (mNewTitle: string)
  | ProfileDescriptionChangeUndoCommand (mOldDesc: string) (mNewDesc: string)
  | XCCDFItemSelectUndoCommand (mTreeItem: nat) (mNewSelect: bool)
  | XCCDFValueChangeUndoCommand (mXccdfValue: xccdf_item) (mNewValue: string) (mOldValue: string)

record QUndoStack =
  command_list :: "undo_command list"
  index :: nat

section \<open>The window and its dock widgets\<close>

record ProfilePropertiesDockWidget =
  prof_mRefreshInProgress :: bool
  prof_ui_id :: string
  prof_ui_title :: string
  prof_ui_description :: string

record XCCDFItemPropertiesDockWidget =
  mXccdfItem :: "xccdf_item option"
  item_mRefreshInProgress :: bool
  ui_titleLineEdit :: string
  ui_idLineEdit :: string
  ui_typeLineEdit :: string
  ui_descriptionBrowser :: string
  ui_valueGroupBox_visible :: bool
  ui_valueComboBox_items :: "string option list"
  ui_valueComboBox_editText :: string
  ui_valueComboBox_validator :: "xccdf_value_type option"
  ui_valueTypeLabel :: string

text \<open>
  The members of \<^verbatim>\<open>TailoringWindow\<close>. \<open>mPolicy\<close> is the list of selects added to the
  policy; the policy reads the set-values from its profile, which is \<open>mProfile\<close>
  (\<^verbatim>\<open>mProfile(xccdf_policy_get_profile(policy))\<close>). \<open>itemsTree\<close> is the top-level item
  of \<^verbatim>\<open>mUI.itemsTree\<close>. \<open>next_ptr\<close> is the address the next \<^verbatim>\<open>new QTreeWidgetItem()\<close>
  gets. \<open>itemChanged_log\<close> records, for every change the window makes to a tree item
  while it synchronizes, the value the counter \<open>mSynchronizeItemLock\<close> has when the tree
  widget signals the change. \<open>mParentMainWindow\<close> says whether the pointer is non-null,
  \<open>notifyTailoringFinished\<close> holds the arguments the parent was notified with and
  \<open>closed\<close> whether the close event was accepted.
\<close>

record TailoringWindow =
  mSynchronizeItemLock :: nat
  mPolicy :: "xccdf_select list"
  mProfile :: xccdf_profile
  mBenchmark :: xccdf_item
  itemsTree :: tree_item
  next_ptr :: nat
  itemChanged_log :: "nat list"
  mUndoStack :: QUndoStack
  mNewProfile :: bool
  mChangesConfirmed :: bool
  mProfilePropertiesDockWidget :: ProfilePropertiesDockWidget
  mItemPropertiesDockWidget :: XCCDFItemPropertiesDockWidget
  mParentMainWindow :: bool
  notifyTailoringFinished :: "(bool \<times> bool) option"
  closed :: bool

section \<open>Selection and values\<close>

definition getXccdfItemInternalSelected :: "oscap \<Rightarrow> xccdf_select list \<Rightarrow> xccdf_item \<Rightarrow> bool" where
  "getXccdfItemInternalSelected L policy item =
     (case xccdf_policy_get_select_by_id L policy (xccdf_item_get_id item) of
        Some select \<Rightarrow> xccdf_select_get_selected select
      | None \<Rightarrow> xccdf_item_get_selected item)"

definition string_of_bool :: "bool \<Rightarrow> string" where
  "string_of_bool b = (if b then ''1'' else ''0'')"

definition setItemSelected :: "oscap \<Rightarrow> TailoringWindow \<Rightarrow> xccdf_item \<Rightarrow> bool \<Rightarrow> error + TailoringWindow" where
  "setItemSelected L w xccdfItem selected =
     (let newSelect = \<lparr>xccdf_select_get_item = xccdf_item_get_id xccdfItem,
                       xccdf_select_get_selected = selected\<rparr>;
          w1 = w\<lparr>mProfile := (mProfile w)\<lparr>xccdf_profile_get_selects :=
                    xccdf_profile_get_selects (mProfile w) @ [newSelect]\<rparr>\<rparr>;
          w2 = w1\<lparr>mPolicy := mPolicy w1 @ [newSelect]\<rparr>
      in if getXccdfItemInternalSelected L (mPolicy w2) xccdfItem \<noteq> selected
         then Inl (TailoringWindowException
                (''Even though xccdf_select was added to both profile and policy '' @
                 ''to make '' @ [CHR 0x27] @ ''%1'' @ [CHR 0x27] @ '' selected=%2, it remains selected=%3.'')
                [xccdf_item_get_id xccdfItem, string_of_bool selected, string_of_bool (\<not> selected)])
         else Inr w2)"

definition getCurrentValueValue :: "oscap \<Rightarrow> TailoringWindow \<Rightarrow> xccdf_item \<Rightarrow> string" where
  "getCurrentValueValue L w xccdfValue =
     xccdf_policy_get_value_of_item L (xccdf_profile_get_setvalues (mProfile w)) xccdfValue"

definition setValueValue :: "oscap \<Rightarrow> TailoringWindow \<Rightarrow> xccdf_item \<Rightarrow> string \<Rightarrow> error + TailoringWindow" where
  "setValueValue L w xccdfValue newValue =
     (let setvalue = \<lparr>xccdf_setvalue_get_item = xccdf_item_get_id xccdfValue,
                      xccdf_setvalue_get_value = newValue\<rparr>;
          w1 = w\<lparr>mProfile := (mProfile w)\<lparr>xccdf_profile_get_setvalues :=
                    xccdf_profile_get_setvalues (mProfile w) @ [setvalue]\<rparr>\<rparr>
      in if getCurrentValueValue L w1 xccdfValue = newValue then Inr w1
         else Inl AssertionFailed)"

section \<open>Profile title and description\<close>

text \<open>
  The loop of \<^verbatim>\<open>setProfileTitle\<close> and \<^verbatim>\<open>setProfileDescription\<close> over the texts: the
  candidate replaces the text found so far when none was found yet or when its language
  is the default one. A text is pointed to by its position in the list.
\<close>

fun find_text :: "string \<Rightarrow> oscap_text list \<Rightarrow> nat \<Rightarrow> nat option \<Rightarrow> nat option" where
  "find_text dflt [] i titleText = titleText"
| "find_text dflt (titleCandidate # titles) i titleText =
     find_text dflt titles (Suc i)
       (if titleText = None \<or> oscap_text_get_lang titleCandidate = dflt
        then Some i else titleText)"

definition getProfileTitle :: "oscap \<Rightarrow> TailoringWindow \<Rightarrow> string" where
  "getProfileTitle L w = oscapTextIteratorGetPreferred L (xccdf_profile_get_title (mProfile w))"

definition getProfileDescription :: "oscap \<Rightarrow> TailoringWindow \<Rightarrow> string" where
  "getProfileDescription L w =
     oscapTextIteratorGetPreferred L (xccdf_profile_get_description (mProfile w))"

definition getProfileID :: "TailoringWindow \<Rightarrow> string" where
  "getProfileID w = xccdf_profile_get_id (mProfile w)"

definition setProfileTitle :: "oscap \<Rightarrow> TailoringWindow \<Rightarrow> string \<Rightarrow> error + TailoringWindow" where
  "setProfileTitle L w title =
     (let titles = xccdf_profile_get_title (mProfile w)
      in case find_text (OSCAP_LANG_DEFAULT L) titles 0 None of
           Some i \<Rightarrow>
             (let w1 = w\<lparr>mProfile := (mProfile w)\<lparr>xccdf_profile_get_title :=
                         titles[i := \<lparr>oscap_text_get_lang = OSCAP_LANG_DEFAULT L,
                                      oscap_text_get_text = title\<rparr>]\<rparr>\<rparr>
              in if getProfileTitle L w1 = title then Inr w1 else Inl AssertionFailed)
         | None \<Rightarrow>
             Inl (TailoringWindowException
               ''Not suitable oscap_text found that we could edit to change profile title.'' []))"

definition setProfileDescription :: "oscap \<Rightarrow> TailoringWindow \<Rightarrow> string \<Rightarrow> error + TailoringWindow" where
  "setProfileDescription L w description =
     (let descriptions = xccdf_profile_get_description (mProfile w)
      in case find_text (OSCAP_LANG_DEFAULT L) descriptions 0 None of
           Some i \<Rightarrow>
             (let w1 = w\<lparr>mProfile := (mProfile w)\<lparr>xccdf_profile_get_description :=
                         descriptions[i := \<lparr>oscap_text_get_lang = OSCAP_LANG_DEFAULT L,
                                            oscap_text_get_text = description\<rparr>]\<rparr>\<rparr>
              in if getProfileDescription L w1 = description then Inr w1 else Inl AssertionFailed)
         | None \<Rightarrow>
             Inl (TailoringWindowException
               ''Not suitable oscap_text found that we could edit to change profile description.'' []))"

section \<open>Tree items\<close>

definition setText0 :: "string \<Rightarrow> tree_item \<Rightarrow> tree_item" where
  "setText0 s ti = (case ti of Tree_item p t0 t1 ic d ck en ch cs \<Rightarrow> Tree_item p s t1 ic d ck en ch cs)"

definition setText1 :: "string \<Rightarrow> tree_item \<Rightarrow> tree_item" where
  "setText1 s ti = (case ti of Tree_item p t0 t1 ic d ck en ch cs \<Rightarrow> Tree_item p t0 s ic d ck en ch cs)"

definition setIcon :: "string \<Rightarrow> tree_item \<Rightarrow> tree_item" where
  "setIcon s ti = (case ti of Tree_item p t0 t1 ic d ck en ch cs \<Rightarrow> Tree_item p t0 t1 s d ck en ch cs)"

definition setData :: "xccdf_item option \<Rightarrow> tree_item \<Rightarrow> tree_item" where
  "setData x ti = (case ti of Tree_item p t0 t1 ic d ck en ch cs \<Rightarrow> Tree_item p t0 t1 ic x ck en ch cs)"

definition setUserCheckable :: "bool \<Rightarrow> tree_item \<Rightarrow> tree_item" where
  "setUserCheckable b ti = (case ti of Tree_item p t0 t1 ic d ck en ch cs \<Rightarrow> Tree_item p t0 t1 ic d b en ch cs)"

definition setDisabled :: "bool \<Rightarrow> tree_item \<Rightarrow> tree_item" where
  "setDisabled b ti = (case ti of Tree_item p t0 t1 ic d ck en ch cs \<Rightarrow> Tree_item p t0 t1 ic d ck (\<not> b) ch cs)"

definition setCheckState :: "bool \<Rightarrow> tree_item \<Rightarrow> tree_item" where
  "setCheckState b ti = (case ti of Tree_item p t0 t1 ic d ck en ch cs \<Rightarrow> Tree_item p t0 t1 ic d ck en b cs)"

definition setChildren :: "tree_item list \<Rightarrow> tree_item \<Rightarrow> tree_item" where
  "setChildren xs ti = (case ti of Tree_item p t0 t1 ic d ck en ch cs \<Rightarrow> Tree_item p t0 t1 ic d ck en ch xs)"

definition isDisabled :: "tree_item \<Rightarrow> bool" where
  "isDisabled ti = (\<not> ti_enabled ti)"

definition getXccdfItemFromTreeItem :: "tree_item \<Rightarrow> xccdf_item option" where
  "getXccdfItemFromTreeItem treeItem = ti_data treeItem"

text \<open>A \<^verbatim>\<open>new QTreeWidgetItem()\<close> with the flags \<^verbatim>\<open>Qt::ItemIsSelectable | Qt::ItemIsEnabled\<close>.\<close>

definition new_QTreeWidgetItem :: "nat \<Rightarrow> tree_item" where
  "new_QTreeWidgetItem p = Tree_item p [] [] [] None False True False []"

text \<open>
  \<^verbatim>\<open>QTreeWidgetItem::insertChild(index, child)\<close> does nothing when the index is beyond the
  number of children.
\<close>

definition insertChild :: "nat \<Rightarrow> tree_item \<Rightarrow> tree_item list \<Rightarrow> tree_item list" where
  "insertChild i child children =
     (if i \<le> length children then take i children @ [child] @ drop i children else children)"

lemma size_setDisabled [termination_simp]: "size (setDisabled b ti) = size ti"
  by (cases ti) (simp add: setDisabled_def)

text \<open>
  \<^verbatim>\<open>_syncXCCDFItemChildrenDisabledState\<close>: the children whose disabled state differs from
  the wanted one are switched, and only below those the function goes on.
\<close>

fun syncXCCDFItemChildrenDisabledState :: "tree_item \<Rightarrow> bool \<Rightarrow> tree_item" where
  "syncXCCDFItemChildrenDisabledState (Tree_item p t0 t1 ic d ck en ch children) enabled =
     Tree_item p t0 t1 ic d ck en ch
       (map (\<lambda>childTreeItem.
          (let childEnabled = \<not> isDisabled childTreeItem
           in if \<not> enabled \<and> childEnabled
              then syncXCCDFItemChildrenDisabledState (setDisabled True childTreeItem) False
              else if enabled \<and> \<not> childEnabled
              then syncXCCDFItemChildrenDisabledState (setDisabled False childTreeItem) True
              else childTreeItem)) children)"

text \<open>\<^verbatim>\<open>_refreshXCCDFItemChildrenDisabledState\<close>.\<close>

fun refreshXCCDFItemChildrenDisabledState :: "tree_item \<Rightarrow> bool \<Rightarrow> tree_item" where
  "refreshXCCDFItemChildrenDisabledState (Tree_item p t0 t1 ic d ck en ch children) allAncestorsSelected =
     (let itemSelected = (\<not> ck \<or> ch);
          allAncestorsSelected1 = (allAncestorsSelected \<and> itemSelected)
      in Tree_item p t0 t1 ic d ck en ch
           (map (\<lambda>childTreeItem.
              refreshXCCDFItemChildrenDisabledState
                (setDisabled (\<not> allAncestorsSelected1) childTreeItem) allAncestorsSelected1) children))"

text \<open>
  The tree item a pointer points to is the first one with that address, the item itself
  before its children, the children from the first to the last.
\<close>

fun find_item :: "nat \<Rightarrow> tree_item \<Rightarrow> tree_item option"
  and find_items :: "nat \<Rightarrow> tree_item list \<Rightarrow> tree_item option" where
  "find_item p (Tree_item q t0 t1 ic d ck en ch cs) =
     (if p = q then Some (Tree_item q t0 t1 ic d ck en ch cs) else find_items p cs)"
| "find_items p [] = None"
| "find_items p (c # cs) = (case find_item p c of Some t \<Rightarrow> Some t | None \<Rightarrow> find_items p cs)"

text \<open>Writing through a pointer: the item it points to is replaced by its new state.\<close>

fun store_item :: "nat \<Rightarrow> tree_item \<Rightarrow> tree_item \<Rightarrow> tree_item"
  and store_items :: "nat \<Rightarrow> tree_item \<Rightarrow> tree_item list \<Rightarrow> tree_item list" where
  "store_item p new (Tree_item q t0 t1 ic d ck en ch cs) =
     (if p = q then new else Tree_item q t0 t1 ic d ck en ch (store_items p new cs))"
| "store_items p new [] = []"
| "store_items p new (c # cs) =
     (case find_item p c of Some t \<Rightarrow> store_item p new c # cs | None \<Rightarrow> c # store_items p new cs)"

section \<open>Synchronizing the tree with the document\<close>

text \<open>
  The tree widget emits \<^verbatim>\<open>itemChanged\<close> when a tree item is changed. \<open>signal_itemChanged\<close>
  records the value the counter has at that moment.
\<close>

definition signal_itemChanged :: "TailoringWindow \<Rightarrow> TailoringWindow" where
  "signal_itemChanged w = w\<lparr>itemChanged_log := itemChanged_log w @ [mSynchronizeItemLock w]\<rparr>"

definition getShareIcon_of_type :: "xccdf_type \<Rightarrow> string" where
  "getShareIcon_of_type t =
     (case t of
        XCCDF_BENCHMARK \<Rightarrow> ''benchmark.png''
      | XCCDF_GROUP \<Rightarrow> ''group.png''
      | XCCDF_RULE \<Rightarrow> ''rule.png''
      | XCCDF_VALUE \<Rightarrow> ''value.png''
      | _ \<Rightarrow> [])"

text \<open>
  The first loop over the children of the tree item. \<^verbatim>\<open>delete childTreeItem\<close> takes the
  child out of the list of children, and the loop goes on with \<open>i + 1\<close> in the list that
  is now one shorter. The map of existing items takes a backing item to the pointer of
  its tree item.
\<close>

function existing_items_loop ::
  "xccdf_item list \<Rightarrow> tree_item list \<Rightarrow> nat \<Rightarrow> (xccdf_item \<rightharpoonup> nat)
    \<Rightarrow> tree_item list \<times> (xccdf_item \<rightharpoonup> nat)" where
  "existing_items_loop itemsToAdd children i existingItemsMap =
     (if i < length children then
        (let childTreeItem = children ! i;
             childXccdfItem = getXccdfItemFromTreeItem childTreeItem
         in case childXccdfItem of
              None \<Rightarrow>
                existing_items_loop itemsToAdd (take i children @ drop (Suc i) children) (Suc i)
                  existingItemsMap
            | Some x \<Rightarrow>
                if x \<notin> set itemsToAdd
                then existing_items_loop itemsToAdd (take i children @ drop (Suc i) children) (Suc i)
                       existingItemsMap
                else existing_items_loop itemsToAdd children (Suc i)
                       (existingItemsMap(x \<mapsto> ti_ptr childTreeItem)))
      else (children, existingItemsMap))"
  by pat_completeness auto
termination
  by (relation "measure (\<lambda>(itemsToAdd, children, i, m). length children - i)") auto

declare existing_items_loop.simps [simp del]

text \<open>The child of a tree item that a pointer points to, and writing through the pointer.\<close>

definition find_child :: "nat \<Rightarrow> tree_item list \<Rightarrow> tree_item option" where
  "find_child p children = find (\<lambda>c. ti_ptr c = p) children"

fun store_child :: "tree_item \<Rightarrow> tree_item list \<Rightarrow> tree_item list" where
  "store_child new [] = []"
| "store_child new (c # cs) = (if ti_ptr c = ti_ptr new then new # cs else c # store_child new cs)"

definition itemsToAdd_of :: "xccdf_item \<Rightarrow> xccdf_item list" where
  "itemsToAdd_of xccdfItem =
     (case xccdf_item_get_type xccdfItem of
        XCCDF_GROUP \<Rightarrow> xccdf_get_values xccdfItem @ xccdf_get_content xccdfItem
      | XCCDF_BENCHMARK \<Rightarrow> xccdf_get_values xccdfItem @ xccdf_get_content xccdfItem
      | _ \<Rightarrow> [])"

lemma size_itemsToAdd_of: "size_list size (itemsToAdd_of x) < size x"
  by (cases x) (simp add: itemsToAdd_of_def split: xccdf_type.splits)

lemma size_itemsToAdd_of_twice: "Suc (2 * size_list size (itemsToAdd_of x)) < 2 * size x"
  using size_itemsToAdd_of [of x] by arith

text \<open>
  \<^verbatim>\<open>TailoringWindow::synchronizeTreeItem\<close> on a tree item and its backing item, and the
  second loop of its recursive part, over the items to add from position \<open>idx\<close> on. A
  pointer from the map that points to none of the children is left alone (the first loop
  only records pointers of children it keeps).
\<close>

function synchronizeTreeItem ::
    "oscap \<Rightarrow> TailoringWindow \<Rightarrow> tree_item \<Rightarrow> xccdf_item \<Rightarrow> bool \<Rightarrow> TailoringWindow \<times> tree_item"
  and add_items_loop ::
    "oscap \<Rightarrow> (xccdf_item \<rightharpoonup> nat) \<Rightarrow> TailoringWindow \<Rightarrow> tree_item list \<Rightarrow> nat \<Rightarrow> xccdf_item list
      \<Rightarrow> TailoringWindow \<times> tree_item list" where
  "synchronizeTreeItem L w treeItem xccdfItem recursive =
     (let w1 = w\<lparr>mSynchronizeItemLock := mSynchronizeItemLock w + 1\<rparr>;
          t1 = setText0 (oscapTextIteratorGetPreferred L (xccdf_item_get_title xccdfItem)) treeItem;
          w2 = signal_itemChanged w1;
          t2 = setIcon (getShareIcon_of_type (xccdf_item_get_type xccdfItem)) t1;
          w3 = signal_itemChanged w2;
          t3 = setText1 (xccdf_item_get_id xccdfItem) t2;
          w4 = signal_itemChanged w3;
          t4 = setData (Some xccdfItem) t3;
          w5 = signal_itemChanged w4;
          xccdfItemType = xccdf_item_get_type xccdfItem;
          (w6, t5) =
            (if xccdfItemType = XCCDF_RULE \<or> xccdfItemType = XCCDF_GROUP then
               (let a = setUserCheckable True t4;
                    b = setCheckState (getXccdfItemInternalSelected L (mPolicy w) xccdfItem) a;
                    c = syncXCCDFItemChildrenDisabledState b (ti_checked b)
                in (signal_itemChanged (signal_itemChanged (signal_itemChanged w5)), c))
             else if xccdfItemType = XCCDF_VALUE then
               (signal_itemChanged w5, setUserCheckable False t4)
             else (w5, t4));
          (w7, t6) =
            (if recursive then
               (let itemsToAdd = itemsToAdd_of xccdfItem;
                    (children, existingItemsMap) =
                       existing_items_loop itemsToAdd (ti_children t5) 0 Map.empty;
                    (w', children') = add_items_loop L existingItemsMap w6 children 0 itemsToAdd
                in (w', setChildren children' t5))
             else (w6, t5))
      in (w7\<lparr>mSynchronizeItemLock := mSynchronizeItemLock w7 - 1\<rparr>, t6))"
| "add_items_loop L existingItemsMap w children idx [] = (w, children)"
| "add_items_loop L existingItemsMap w children idx (childXccdfItem # rest) =
     (case existingItemsMap childXccdfItem of
        None \<Rightarrow>
          (let childTreeItem = new_QTreeWidgetItem (next_ptr w);
               w1 = w\<lparr>next_ptr := next_ptr w + 1\<rparr>;
               children1 = insertChild idx childTreeItem children;
               (w2, childTreeItem') = synchronizeTreeItem L w1 childTreeItem childXccdfItem True
           in add_items_loop L existingItemsMap w2 (store_child childTreeItem' children1) (idx + 1) rest)
      | Some p \<Rightarrow>
          (case find_child p children of
             Some childTreeItem \<Rightarrow>
               (let (w2, childTreeItem') = synchronizeTreeItem L w childTreeItem childXccdfItem True
                in add_items_loop L existingItemsMap w2 (store_child childTreeItem' children) (idx + 1) rest)
           | None \<Rightarrow> add_items_loop L existingItemsMap w children (idx + 1) rest))"
  by pat_completeness auto
termination
  by (relation "measure (\<lambda>x. case x of
          Inl (L, w, treeItem, xccdfItem, recursive) \<Rightarrow> 2 * size xccdfItem
        | Inr (L, m, w, children, idx, items) \<Rightarrow> 2 * size_list size items + 1)")
     (auto simp: size_itemsToAdd_of_twice)

section \<open>The undo commands\<close>

definition command_id :: "undo_command \<Rightarrow> int" where
  "command_id c =
     (case c of
        ProfileTitleChangeUndoCommand _ _ \<Rightarrow> 2
      | ProfileDescriptionChangeUndoCommand _ _ \<Rightarrow> 3
      | XCCDFItemSelectUndoCommand _ _ \<Rightarrow> 1
      | XCCDFValueChangeUndoCommand _ _ _ \<Rightarrow> 4)"

text \<open>
  \<^verbatim>\<open>mergeWith\<close> returns whether it merged, and the command as it is afterwards. The
  select command does not override \<^verbatim>\<open>QUndoCommand::mergeWith\<close>, which returns false.
  The members of \<open>other\<close> are read after the check of its id, as the source does through
  its \<^verbatim>\<open>static_cast\<close>.
\<close>

fun mergeWith :: "undo_command \<Rightarrow> undo_command \<Rightarrow> bool \<times> undo_command" where
  "mergeWith (ProfileTitleChangeUndoCommand old new) other =
     (if command_id other \<noteq> command_id (ProfileTitleChangeUndoCommand old new)
      then (False, ProfileTitleChangeUndoCommand old new)
      else (True, ProfileTitleChangeUndoCommand old (mNewTitle other)))"
| "mergeWith (ProfileDescriptionChangeUndoCommand old new) other =
     (if command_id other \<noteq> command_id (ProfileDescriptionChangeUndoCommand old new)
      then (False, ProfileDescriptionChangeUndoCommand old new)
      else (True, ProfileDescriptionChangeUndoCommand old (mNewDesc other)))"
| "mergeWith (XCCDFItemSelectUndoCommand p b) other = (False, XCCDFItemSelectUndoCommand p b)"
| "mergeWith (XCCDFValueChangeUndoCommand v new old) other =
     (if command_id other \<noteq> command_id (XCCDFValueChangeUndoCommand v new old)
      then (False, XCCDFValueChangeUndoCommand v new old)
      else if mXccdfValue other \<noteq> v
      then (False, XCCDFValueChangeUndoCommand v new old)
      else (True, XCCDFValueChangeUndoCommand v (mNewValue other) old))"

text \<open>
  \<^verbatim>\<open>TailoringWindow::synchronizeTreeItem\<close> called with a pointer to a tree item of the
  window's tree: the item is read through the pointer and its new state written back.
\<close>

definition TailoringWindow_synchronizeTreeItem ::
  "oscap \<Rightarrow> TailoringWindow \<Rightarrow> nat \<Rightarrow> xccdf_item \<Rightarrow> bool \<Rightarrow> error + TailoringWindow" where
  "TailoringWindow_synchronizeTreeItem L w p xccdfItem recursive =
     (case find_item p (itemsTree w) of
        None \<Rightarrow> Inl NullPointer
      | Some treeItem \<Rightarrow>
          (let (w1, treeItem') = synchronizeTreeItem L w treeItem xccdfItem recursive
           in Inr (w1\<lparr>itemsTree := store_item p treeItem' (itemsTree w1)\<rparr>)))"

text \<open>
  \<^verbatim>\<open>XCCDFItemSelectUndoCommand::redo\<close> and \<^verbatim>\<open>undo\<close> differ in the flag they pass only:
  \<open>select_command\<close> is their common body.
\<close>

definition select_command :: "oscap \<Rightarrow> TailoringWindow \<Rightarrow> nat \<Rightarrow> bool \<Rightarrow> error + TailoringWindow" where
  "select_command L w p selected =
     (case find_item p (itemsTree w) of
        None \<Rightarrow> Inl NullPointer
      | Some treeItem \<Rightarrow>
          (case getXccdfItemFromTreeItem treeItem of
             None \<Rightarrow> Inl NullPointer
           | Some xccdfItem \<Rightarrow>
               (case setItemSelected L w xccdfItem selected of
                  Inl e \<Rightarrow> Inl e
                | Inr w1 \<Rightarrow> TailoringWindow_synchronizeTreeItem L w1 p xccdfItem False)))"

section \<open>The undo stack\<close>

text \<open>
  What \<^verbatim>\<open>QUndoStack::push\<close> does to the stack after it has executed the command: the
  commands above the current position are dropped; the command below the position, if
  it has the id of the new one, is asked to merge with it; otherwise the new command is
  appended and the position moves up. The window never marks the stack clean, so the
  clean state of Qt's stack (position 0) never stands in the way of a merge.
\<close>

definition stack_push :: "QUndoStack \<Rightarrow> undo_command \<Rightarrow> QUndoStack" where
  "stack_push s cmd =
     (let cur = (if 0 < index s \<and> index s \<le> length (command_list s)
                 then Some (command_list s ! (index s - 1)) else None);
          commands = take (index s) (command_list s);
          appended = \<lparr>command_list = commands @ [cmd], index = index s + 1\<rparr>
      in case cur of
           None \<Rightarrow> appended
         | Some c \<Rightarrow>
             if command_id c = command_id cmd then
               (case mergeWith c cmd of
                  (True, c') \<Rightarrow> \<lparr>command_list = commands[index s - 1 := c'], index = index s\<rparr>
                | (False, c') \<Rightarrow> appended)
             else appended)"

definition set_prof ::
  "(ProfilePropertiesDockWidget \<Rightarrow> ProfilePropertiesDockWidget) \<Rightarrow> TailoringWindow \<Rightarrow> TailoringWindow" where
  "set_prof f w = w\<lparr>mProfilePropertiesDockWidget := f (mProfilePropertiesDockWidget w)\<rparr>"

definition set_item :: "(XCCDFItemPropertiesDockWidget \<Rightarrow> XCCDFItemPropertiesDockWidget) \<Rightarrow> TailoringWindow \<Rightarrow> TailoringWindow" where
  "set_item f w = w\<lparr>mItemPropertiesDockWidget := f (mItemPropertiesDockWidget w)\<rparr>"

definition type_text :: "xccdf_type \<Rightarrow> string \<Rightarrow> string" where
  "type_text t old =
     (case t of
        XCCDF_BENCHMARK \<Rightarrow> ''xccdf:Benchmark''
      | XCCDF_GROUP \<Rightarrow> ''xccdf:Group''
      | XCCDF_RULE \<Rightarrow> ''xccdf:Rule''
      | XCCDF_VALUE \<Rightarrow> ''xccdf:Value''
      | _ \<Rightarrow> old)"

section \<open>The dock widgets, their slots and the commands they push\<close>

text \<open>
  The constructors connect \<^verbatim>\<open>textChanged\<close> of the title and of the description to
  \<^verbatim>\<open>profileTitleChanged\<close> and \<^verbatim>\<open>profileDescriptionChanged\<close>, and
  \<^verbatim>\<open>editTextChanged\<close> of the value combo box to \<^verbatim>\<open>valueChanged\<close>. A signal calls its
  slot at once, so where the source changes one of these texts the model calls the slot
  on the state the change leaves. The line edit of the combo box signals only a text
  that differs from the one it has. The slots push commands, \<^verbatim>\<open>QUndoStack::push\<close> calls
  \<^verbatim>\<open>redo\<close> of the command first, and \<^verbatim>\<open>redo\<close> refreshes a dock widget: the functions
  are defined together. A slot called with the pointer \<open>mXccdfItem\<close> null or not at a
  value passes the null pointer \<^verbatim>\<open>xccdf_item_to_value\<close> returns on to code that reads it.
  The separator of the combo box is the item \<open>None\<close>.
\<close>

function ProfilePropertiesDockWidget_refresh :: "oscap \<Rightarrow> TailoringWindow \<Rightarrow> error + TailoringWindow"
  and profileTitleChanged :: "oscap \<Rightarrow> TailoringWindow \<Rightarrow> string \<Rightarrow> error + TailoringWindow"
  and profileDescriptionChanged :: "oscap \<Rightarrow> TailoringWindow \<Rightarrow> error + TailoringWindow"
  and XCCDFItemPropertiesDockWidget_refresh :: "oscap \<Rightarrow> TailoringWindow \<Rightarrow> error + TailoringWindow"
  and valueChanged :: "oscap \<Rightarrow> TailoringWindow \<Rightarrow> string \<Rightarrow> error + TailoringWindow"
  and setProfileTitleWithUndoCommand :: "oscap \<Rightarrow> TailoringWindow \<Rightarrow> string \<Rightarrow> error + TailoringWindow"
  and setProfileDescriptionWithUndoCommand :: "oscap \<Rightarrow> TailoringWindow \<Rightarrow> string \<Rightarrow> error + TailoringWindow"
  and setValueValueWithUndoCommand :: "oscap \<Rightarrow> TailoringWindow \<Rightarrow> xccdf_item \<Rightarrow> string \<Rightarrow> error + TailoringWindow"
  and QUndoStack_push :: "oscap \<Rightarrow> TailoringWindow \<Rightarrow> undo_command \<Rightarrow> error + TailoringWindow"
  and redo :: "oscap \<Rightarrow> TailoringWindow \<Rightarrow> undo_command \<Rightarrow> error + TailoringWindow"
where
  "ProfilePropertiesDockWidget_refresh L w =
     (let w1 = (if prof_ui_id (mProfilePropertiesDockWidget w) \<noteq> getProfileID w
                then set_prof (\<lambda>d. d\<lparr>prof_ui_id := getProfileID w\<rparr>) w else w)
      in case (if prof_ui_title (mProfilePropertiesDockWidget w1) \<noteq> getProfileTitle L w1
               then (case profileTitleChanged L
                            (set_prof (\<lambda>d. d\<lparr>prof_mRefreshInProgress := True,
                                              prof_ui_title := getProfileTitle L w1\<rparr>) w1)
                            (getProfileTitle L w1) of
                       Inl e \<Rightarrow> Inl e
                     | Inr w2 \<Rightarrow> Inr (set_prof (\<lambda>d. d\<lparr>prof_mRefreshInProgress := False\<rparr>) w2))
               else Inr w1) of
           Inl e \<Rightarrow> Inl e
         | Inr w3 \<Rightarrow>
             (if prof_ui_description (mProfilePropertiesDockWidget w3) \<noteq> getProfileDescription L w3
              then (case profileDescriptionChanged L
                            (set_prof (\<lambda>d. d\<lparr>prof_mRefreshInProgress := True,
                                              prof_ui_description := getProfileDescription L w3\<rparr>) w3) of
                      Inl e \<Rightarrow> Inl e
                    | Inr w4 \<Rightarrow> Inr (set_prof (\<lambda>d. d\<lparr>prof_mRefreshInProgress := False\<rparr>) w4))
              else Inr w3))"
| "profileTitleChanged L w newTitle =
     (if prof_mRefreshInProgress (mProfilePropertiesDockWidget w) then Inr w
      else setProfileTitleWithUndoCommand L w newTitle)"
| "profileDescriptionChanged L w =
     (if prof_mRefreshInProgress (mProfilePropertiesDockWidget w) then Inr w
      else setProfileDescriptionWithUndoCommand L w (prof_ui_description (mProfilePropertiesDockWidget w)))"
| "XCCDFItemPropertiesDockWidget_refresh L w =
     (if item_mRefreshInProgress (mItemPropertiesDockWidget w) then Inr w
      else
        (let w1 = set_item (\<lambda>d. d\<lparr>item_mRefreshInProgress := True,
                                   ui_titleLineEdit := ''<no item selected>'',
                                   ui_idLineEdit := [],
                                   ui_typeLineEdit := [],
                                   ui_descriptionBrowser := [],
                                   ui_valueGroupBox_visible := False,
                                   ui_valueComboBox_items := []\<rparr>) w
         in case (if ui_valueComboBox_editText (mItemPropertiesDockWidget w1) \<noteq> []
                  then valueChanged L (set_item (\<lambda>d. d\<lparr>ui_valueComboBox_editText := []\<rparr>) w1) []
                  else Inr w1) of
              Inl e \<Rightarrow> Inl e
            | Inr w2 \<Rightarrow>
                (let w3 = set_item (\<lambda>d. d\<lparr>ui_valueComboBox_validator := None\<rparr>) w2
                 in case mXccdfItem (mItemPropertiesDockWidget w3) of
                      None \<Rightarrow> Inr (set_item (\<lambda>d. d\<lparr>item_mRefreshInProgress := False\<rparr>) w3)
                    | Some item \<Rightarrow>
                        (let w4 = set_item (\<lambda>d. d\<lparr>
                                    ui_titleLineEdit := oscapTextIteratorGetPreferred L (xccdf_item_get_title item),
                                    ui_idLineEdit := xccdf_item_get_id item,
                                    ui_typeLineEdit := type_text (xccdf_item_get_type item) (ui_typeLineEdit d),
                                    ui_descriptionBrowser :=
                                      oscapTextIteratorGetPreferred L (xccdf_item_get_description item)\<rparr>) w3
                         in if xccdf_item_get_type item = XCCDF_VALUE then
                              (let w5 = set_item (\<lambda>d. d\<lparr>
                                          ui_valueComboBox_validator :=
                                            (case xccdf_value_get_type item of
                                               XCCDF_TYPE_NUMBER \<Rightarrow> Some XCCDF_TYPE_NUMBER
                                             | XCCDF_TYPE_STRING \<Rightarrow> None
                                             | XCCDF_TYPE_BOOLEAN \<Rightarrow> Some XCCDF_TYPE_BOOLEAN),
                                          ui_valueTypeLabel :=
                                            (case xccdf_value_get_type item of
                                               XCCDF_TYPE_NUMBER \<Rightarrow> ''(number)''
                                             | XCCDF_TYPE_STRING \<Rightarrow> ''(string)''
                                             | XCCDF_TYPE_BOOLEAN \<Rightarrow> ''(bool)''),
                                          ui_valueComboBox_items :=
                                            ui_valueComboBox_items d @ map Some (xccdf_value_get_instances item)\<rparr>) w4
                               in case (if ui_valueComboBox_editText (mItemPropertiesDockWidget w5)
                                            \<noteq> getCurrentValueValue L w5 item
                                        then valueChanged L
                                               (set_item (\<lambda>d. d\<lparr>ui_valueComboBox_editText :=
                                                                  getCurrentValueValue L w5 item\<rparr>) w5)
                                               (getCurrentValueValue L w5 item)
                                        else Inr w5) of
                                    Inl e \<Rightarrow> Inl e
                                  | Inr w6 \<Rightarrow>
                                      Inr (set_item (\<lambda>d. d\<lparr>
                                             ui_valueComboBox_items :=
                                               take 1 (ui_valueComboBox_items d) @ [None] @
                                               drop 1 (ui_valueComboBox_items d),
                                             ui_valueGroupBox_visible := True,
                                             item_mRefreshInProgress := False\<rparr>) w6))
                            else Inr (set_item (\<lambda>d. d\<lparr>item_mRefreshInProgress := False\<rparr>) w4)))))"
| "valueChanged L w newValue =
     (if item_mRefreshInProgress (mItemPropertiesDockWidget w) then Inr w
      else case mXccdfItem (mItemPropertiesDockWidget w) of
             None \<Rightarrow> Inl NullPointer
           | Some item \<Rightarrow>
               if xccdf_item_get_type item \<noteq> XCCDF_VALUE then Inl NullPointer
               else setValueValueWithUndoCommand L w item newValue)"
| "setProfileTitleWithUndoCommand L w newTitle =
     QUndoStack_push L w (ProfileTitleChangeUndoCommand (getProfileTitle L w) newTitle)"
| "setProfileDescriptionWithUndoCommand L w newDescription =
     QUndoStack_push L w (ProfileDescriptionChangeUndoCommand (getProfileDescription L w) newDescription)"
| "setValueValueWithUndoCommand L w xccdfValue newValue =
     QUndoStack_push L w (XCCDFValueChangeUndoCommand xccdfValue newValue (getCurrentValueValue L w xccdfValue))"
| "QUndoStack_push L w cmd =
     (case redo L w cmd of
        Inl e \<Rightarrow> Inl e
      | Inr w1 \<Rightarrow> Inr (w1\<lparr>mUndoStack := stack_push (mUndoStack w1) cmd\<rparr>))"
| "redo L w (ProfileTitleChangeUndoCommand old new) =
     (case setProfileTitle L w new of
        Inl e \<Rightarrow> Inl e
      | Inr w1 \<Rightarrow> ProfilePropertiesDockWidget_refresh L w1)"
| "redo L w (ProfileDescriptionChangeUndoCommand old new) =
     (case setProfileDescription L w new of
        Inl e \<Rightarrow> Inl e
      | Inr w1 \<Rightarrow> ProfilePropertiesDockWidget_refresh L w1)"
| "redo L w (XCCDFItemSelectUndoCommand p b) = select_command L w p b"
| "redo L w (XCCDFValueChangeUndoCommand v new old) =
     (case setValueValue L w v new of
        Inl e \<Rightarrow> Inl e
      | Inr w1 \<Rightarrow> XCCDFItemPropertiesDockWidget_refresh L w1)"
  by pat_completeness auto

termination
  apply (relation "measure (\<lambda>x. case x of
      Inl (Inl (Inl (L, w))) \<Rightarrow> 2
    | Inl (Inl (Inr (L, w, t))) \<Rightarrow> (if prof_mRefreshInProgress (mProfilePropertiesDockWidget w) then 0 else 6)
    | Inl (Inr (Inl (L, w))) \<Rightarrow> (if prof_mRefreshInProgress (mProfilePropertiesDockWidget w) then 0 else 6)
    | Inl (Inr (Inr (Inl (L, w)))) \<Rightarrow> 2
    | Inl (Inr (Inr (Inr (L, w, v)))) \<Rightarrow> (if item_mRefreshInProgress (mItemPropertiesDockWidget w) then 0 else 6)
    | Inr (Inl (Inl (L, w, t))) \<Rightarrow> 5
    | Inr (Inl (Inr (L, w, t))) \<Rightarrow> 5
    | Inr (Inr (Inl (L, w, v, t))) \<Rightarrow> 5
    | Inr (Inr (Inr (Inl (L, w, c)))) \<Rightarrow> 4
    | Inr (Inr (Inr (Inr (L, w, c)))) \<Rightarrow> (3::nat))")
  apply (auto simp add: set_prof_def set_item_def valueChanged.psimps split: if_splits)
  done


declare ProfilePropertiesDockWidget_refresh.simps [simp del]
declare XCCDFItemPropertiesDockWidget_refresh.simps [simp del]
declare QUndoStack_push.simps [simp del]
declare synchronizeTreeItem.simps [simp del]

fun undo :: "oscap \<Rightarrow> TailoringWindow \<Rightarrow> undo_command \<Rightarrow> error + TailoringWindow" where
  "undo L w (ProfileTitleChangeUndoCommand old new) =
     (case setProfileTitle L w old of
        Inl e \<Rightarrow> Inl e
      | Inr w1 \<Rightarrow> ProfilePropertiesDockWidget_refresh L w1)"
| "undo L w (ProfileDescriptionChangeUndoCommand old new) =
     (case setProfileDescription L w old of
        Inl e \<Rightarrow> Inl e
      | Inr w1 \<Rightarrow> ProfilePropertiesDockWidget_refresh L w1)"
| "undo L w (XCCDFItemSelectUndoCommand p b) = select_command L w p (\<not> b)"
| "undo L w (XCCDFValueChangeUndoCommand v new old) =
     (case setValueValue L w v old of
        Inl e \<Rightarrow> Inl e
      | Inr w1 \<Rightarrow> XCCDFItemPropertiesDockWidget_refresh L w1)"


text \<open>
  \<^verbatim>\<open>QUndoStack::setIndex(idx)\<close>: the commands from the position up to \<open>idx\<close> are redone,
  or the commands from the position down to \<open>idx\<close> undone, and the position is set.
\<close>

function setIndex_redo :: "oscap \<Rightarrow> TailoringWindow \<Rightarrow> nat \<Rightarrow> nat \<Rightarrow> error + TailoringWindow" where
  "setIndex_redo L w i idx =
     (if i < idx then
        (case redo L w (command_list (mUndoStack w) ! i) of
           Inl e \<Rightarrow> Inl e
         | Inr w1 \<Rightarrow> setIndex_redo L w1 (i + 1) idx)
      else Inr w)"
  by pat_completeness auto
termination
  by (relation "measure (\<lambda>(L, w, i, idx). idx - i)") auto

function setIndex_undo :: "oscap \<Rightarrow> TailoringWindow \<Rightarrow> nat \<Rightarrow> nat \<Rightarrow> error + TailoringWindow" where
  "setIndex_undo L w i idx =
     (if idx < i then
        (case undo L w (command_list (mUndoStack w) ! (i - 1)) of
           Inl e \<Rightarrow> Inl e
         | Inr w1 \<Rightarrow> setIndex_undo L w1 (i - 1) idx)
      else Inr w)"
  by pat_completeness auto
termination
  by (relation "measure (\<lambda>(L, w, i, idx). i)") auto

declare setIndex_redo.simps [simp del]
declare setIndex_undo.simps [simp del]

definition QUndoStack_setIndex :: "oscap \<Rightarrow> TailoringWindow \<Rightarrow> nat \<Rightarrow> error + TailoringWindow" where
  "QUndoStack_setIndex L w idx0 =
     (let idx = (if length (command_list (mUndoStack w)) < idx0
                 then length (command_list (mUndoStack w)) else idx0);
          i = min (index (mUndoStack w)) (length (command_list (mUndoStack w)))
      in case setIndex_redo L w i idx of
           Inl e \<Rightarrow> Inl e
         | Inr w1 \<Rightarrow>
             (case setIndex_undo L w1 (max i idx) idx of
                Inl e \<Rightarrow> Inl e
              | Inr w2 \<Rightarrow> Inr (w2\<lparr>mUndoStack := (mUndoStack w2)\<lparr>index := idx\<rparr>\<rparr>)))"

section \<open>The slots of the window\<close>

definition itemChanged :: "oscap \<Rightarrow> TailoringWindow \<Rightarrow> nat \<Rightarrow> error + TailoringWindow" where
  "itemChanged L w p =
     (if mSynchronizeItemLock w > 0 then Inr w
      else case find_item p (itemsTree w) of
             None \<Rightarrow> Inl NullPointer
           | Some treeItem \<Rightarrow>
               (let checkState = ti_checked treeItem
                in case getXccdfItemFromTreeItem treeItem of
                     None \<Rightarrow> Inr w
                   | Some xccdfItem \<Rightarrow>
                       if xccdf_item_get_type xccdfItem = XCCDF_VALUE then Inr w
                       else
                         (let itemCheckState = getXccdfItemInternalSelected L (mPolicy w) xccdfItem
                          in case (if checkState \<noteq> itemCheckState
                                   then QUndoStack_push L w (XCCDFItemSelectUndoCommand p checkState)
                                   else Inr w) of
                               Inl e \<Rightarrow> Inl e
                             | Inr w1 \<Rightarrow>
                                 (case find_item p (itemsTree w1) of
                                    None \<Rightarrow> Inl NullPointer
                                  | Some treeItem1 \<Rightarrow>
                                      Inr (w1\<lparr>itemsTree :=
                                             store_item p
                                               (syncXCCDFItemChildrenDisabledState treeItem1 checkState)
                                               (itemsTree w1)\<rparr>)))))"

definition itemSelectionChanged :: "oscap \<Rightarrow> TailoringWindow \<Rightarrow> nat \<Rightarrow> error + TailoringWindow" where
  "itemSelectionChanged L w current =
     (case find_item current (itemsTree w) of
        None \<Rightarrow> Inl NullPointer
      | Some treeItem \<Rightarrow>
          XCCDFItemPropertiesDockWidget_refresh L
            (set_item (\<lambda>d. d\<lparr>mXccdfItem := getXccdfItemFromTreeItem treeItem\<rparr>) w))"

text \<open>
  \<^verbatim>\<open>closeEvent\<close>. \<open>answer_yes\<close> is the button the user presses in the message box, should
  the box be shown. \<^verbatim>\<open>event->ignore()\<close> leaves the window open; \<^verbatim>\<open>QMainWindow::closeEvent\<close>
  accepts the event.
\<close>

definition closeEvent :: "oscap \<Rightarrow> TailoringWindow \<Rightarrow> bool \<Rightarrow> error + TailoringWindow" where
  "closeEvent L w answer_yes =
     (case (if \<not> mChangesConfirmed w then
              (if \<not> answer_yes then Inr (w, True)
               else case QUndoStack_setIndex L w 0 of
                      Inl e \<Rightarrow> Inl e
                    | Inr w1 \<Rightarrow> Inr (w1, False))
            else Inr (w, False)) of
        Inl e \<Rightarrow> Inl e
      | Inr (w1, ignored) \<Rightarrow>
          if ignored then Inr w1
          else
            (let w2 = w1\<lparr>closed := True\<rparr>
             in if mParentMainWindow w2
                then Inr (w2\<lparr>notifyTailoringFinished := Some (mNewProfile w2, mChangesConfirmed w2)\<rparr>)
                else Inr w2))"

definition confirmAndClose :: "oscap \<Rightarrow> TailoringWindow \<Rightarrow> bool \<Rightarrow> error + TailoringWindow" where
  "confirmAndClose L w answer_yes = closeEvent L (w\<lparr>mChangesConfirmed := True\<rparr>) answer_yes"

definition deleteProfileAndDiscard :: "oscap \<Rightarrow> TailoringWindow \<Rightarrow> bool \<Rightarrow> error + TailoringWindow" where
  "deleteProfileAndDiscard L w answer_yes =
     closeEvent L (w\<lparr>mChangesConfirmed := False, mNewProfile := True\<rparr>) answer_yes"

section \<open>The constructor\<close>

text \<open>
  The constructor is given the policy (a null pointer is \<open>None\<close>; the policy carries the
  selects added to it and the pointer to its profile) and the benchmark. The dock widgets
  start with empty fields, the undo stack empty, the top-level tree item at address 0.
\<close>

definition TailoringWindow_new ::
  "oscap \<Rightarrow> (xccdf_select list \<times> xccdf_profile option) option \<Rightarrow> xccdf_item option \<Rightarrow> bool \<Rightarrow> bool
    \<Rightarrow> error + TailoringWindow" where
  "TailoringWindow_new L policy benchmark newProfile parent =
     (case policy of
        None \<Rightarrow> Inl (TailoringWindowException
          (''TailoringWindow needs a proper policy '' @ ''being given. NULL was given instead!'') [])
      | Some (selects, profile) \<Rightarrow>
          (case profile of
             None \<Rightarrow> Inl (TailoringWindowException
               (''TailoringWindow was given a non-NULL '' @
                ''policy but profile associated with it is NULL. Can'' @ [CHR 0x27] @ ''t proceed!'') [])
           | Some prof \<Rightarrow>
               (case benchmark of
                  None \<Rightarrow> Inl (TailoringWindowException
                    (''TailoringWindow was given a NULL '' @ ''benchmark. Can'' @ [CHR 0x27] @ ''t proceed!'') [])
                | Some bench \<Rightarrow>
                    (let benchmarkItem = new_QTreeWidgetItem 0;
                         w0 = \<lparr>mSynchronizeItemLock = 0,
                               mPolicy = selects,
                               mProfile = prof,
                               mBenchmark = bench,
                               itemsTree = benchmarkItem,
                               next_ptr = 1,
                               itemChanged_log = [],
                               mUndoStack = \<lparr>command_list = [], index = 0\<rparr>,
                               mNewProfile = newProfile,
                               mChangesConfirmed = False,
                               mProfilePropertiesDockWidget =
                                 \<lparr>prof_mRefreshInProgress = False, prof_ui_id = [],
                                  prof_ui_title = [], prof_ui_description = []\<rparr>,
                               mItemPropertiesDockWidget =
                                 \<lparr>mXccdfItem = None, item_mRefreshInProgress = False,
                                  ui_titleLineEdit = [], ui_idLineEdit = [], ui_typeLineEdit = [],
                                  ui_descriptionBrowser = [], ui_valueGroupBox_visible = False,
                                  ui_valueComboBox_items = [], ui_valueComboBox_editText = [],
                                  ui_valueComboBox_validator = None, ui_valueTypeLabel = []\<rparr>,
                               mParentMainWindow = parent,
                               notifyTailoringFinished = None,
                               closed = False\<rparr>;
                         (w1, benchmarkItem1) = synchronizeTreeItem L w0 benchmarkItem bench True;
                         w2 = w1\<lparr>itemsTree := refreshXCCDFItemChildrenDisabledState benchmarkItem1 True\<rparr>
                     in case XCCDFItemPropertiesDockWidget_refresh L w2 of
                          Inl e \<Rightarrow> Inl e
                        | Inr w3 \<Rightarrow> ProfilePropertiesDockWidget_refresh L w3))))"

section \<open>What the user does\<close>

text \<open>
  The user sets the check box of a tree item, makes a tree item the current one, or
  types into the title, the description or the value: the widget takes the new state
  and signals it to the slot the constructor connected.
\<close>

datatype user_action =
  SetCheckBox nat bool
  | SetCurrentItem nat
  | TypeTitle string
  | TypeDescription string
  | TypeValue string

fun user :: "oscap \<Rightarrow> TailoringWindow \<Rightarrow> user_action \<Rightarrow> error + TailoringWindow" where
  "user L w (SetCheckBox p b) =
     (case find_item p (itemsTree w) of
        None \<Rightarrow> Inl NullPointer
      | Some treeItem \<Rightarrow>
          itemChanged L (w\<lparr>itemsTree := store_item p (setCheckState b treeItem) (itemsTree w)\<rparr>) p)"
| "user L w (SetCurrentItem p) = itemSelectionChanged L w p"
| "user L w (TypeTitle t) = profileTitleChanged L (set_prof (\<lambda>d. d\<lparr>prof_ui_title := t\<rparr>) w) t"
| "user L w (TypeDescription t) =
     profileDescriptionChanged L (set_prof (\<lambda>d. d\<lparr>prof_ui_description := t\<rparr>) w)"
| "user L w (TypeValue t) = valueChanged L (set_item (\<lambda>d. d\<lparr>ui_valueComboBox_editText := t\<rparr>) w) t"

fun users :: "oscap \<Rightarrow> TailoringWindow \<Rightarrow> user_action list \<Rightarrow> error + TailoringWindow" where
  "users L w [] = Inr w"
| "users L w (a # as) = (case user L w a of Inl e \<Rightarrow> Inl e | Inr w1 \<Rightarrow> users L w1 as)"


section \<open>A library for examples\<close>

text \<open>
  Modelled from the spec: the queries of the openscap library, whose code is not part of
  the window. The policy layers the select and set-value overrides on top of the
  defaults of the document, and an override just added is the one in effect: the last
  override for an identifier wins, and without one the item's own flag, or the first
  instance of the value, is the answer. The preferred text is the one in the default
  language, else the first one.
\<close>

definition example_oscap :: oscap where
  "example_oscap =
     \<lparr>xccdf_policy_get_select_by_id =
        (\<lambda>selects i. find (\<lambda>s. xccdf_select_get_item s = i) (rev selects)),
      xccdf_policy_get_value_of_item =
        (\<lambda>setvalues v.
           case find (\<lambda>s. xccdf_setvalue_get_item s = xccdf_item_get_id v) (rev setvalues) of
             Some s \<Rightarrow> xccdf_setvalue_get_value s
           | None \<Rightarrow> (case xccdf_value_get_instances v of [] \<Rightarrow> [] | x # xs \<Rightarrow> x)),
      oscapTextIteratorGetPreferred =
        (\<lambda>texts.
           case find (\<lambda>t. oscap_text_get_lang t = ''en_US'') texts of
             Some t \<Rightarrow> oscap_text_get_text t
           | None \<Rightarrow> (case texts of [] \<Rightarrow> [] | t # ts \<Rightarrow> oscap_text_get_text t)),
      OSCAP_LANG_DEFAULT = ''en_US''\<rparr>"

text \<open>
  A library whose policy answers with the first override for an identifier: a select or
  a set-value added after another one for the same item is not in effect.
\<close>

definition first_wins_oscap :: oscap where
  "first_wins_oscap =
     example_oscap\<lparr>
       xccdf_policy_get_select_by_id :=
         (\<lambda>selects i. find (\<lambda>s. xccdf_select_get_item s = i) selects),
       xccdf_policy_get_value_of_item :=
         (\<lambda>setvalues v.
            case find (\<lambda>s. xccdf_setvalue_get_item s = xccdf_item_get_id v) setvalues of
              Some s \<Rightarrow> xccdf_setvalue_get_value s
            | None \<Rightarrow> (case xccdf_value_get_instances v of [] \<Rightarrow> [] | x # xs \<Rightarrow> x))\<rparr>"

text \<open>A benchmark with a value, and a group holding a value and a rule.\<close>

definition ex_text :: "string \<Rightarrow> oscap_text list" where
  "ex_text s = [\<lparr>oscap_text_get_lang = ''en_US'', oscap_text_get_text = s\<rparr>]"

definition ex_value1 :: xccdf_item where
  "ex_value1 = Xccdf_item XCCDF_VALUE ''v1'' (ex_text ''V1'') [] True XCCDF_TYPE_NUMBER [''8''] [] []"

definition ex_value2 :: xccdf_item where
  "ex_value2 = Xccdf_item XCCDF_VALUE ''v2'' (ex_text ''V2'') [] True XCCDF_TYPE_STRING [''a''] [] []"

definition ex_rule :: xccdf_item where
  "ex_rule = Xccdf_item XCCDF_RULE ''r'' (ex_text ''R'') [] False XCCDF_TYPE_STRING [] [] []"

definition ex_group :: xccdf_item where
  "ex_group = Xccdf_item XCCDF_GROUP ''g'' (ex_text ''G'') [] True XCCDF_TYPE_STRING [] [ex_value2] [ex_rule]"

definition ex_benchmark :: xccdf_item where
  "ex_benchmark =
     Xccdf_item XCCDF_BENCHMARK ''b'' (ex_text ''B'') [] True XCCDF_TYPE_STRING [] [ex_value1] [ex_group]"

definition ex_profile :: xccdf_profile where
  "ex_profile =
     \<lparr>xccdf_profile_get_id = ''p'',
      xccdf_profile_get_selects = [],
      xccdf_profile_get_setvalues = [],
      xccdf_profile_get_title = ex_text ''Default Profile'',
      xccdf_profile_get_description = ex_text ''D''\<rparr>"

definition ex_window :: TailoringWindow where
  "ex_window =
     projr (TailoringWindow_new example_oscap (Some ([], Some ex_profile)) (Some ex_benchmark) False True)"

section \<open>Predicates of the properties\<close>


text \<open>
  What stays of a tree when the texts, icons, flags and check states of its items are
  left out: the pointers, the backing items and the shape.
\<close>

datatype skeleton = Skeleton nat "xccdf_item option" "skeleton list"

fun erase :: "tree_item \<Rightarrow> skeleton" where
  "erase (Tree_item p t0 t1 ic d ck en ch cs) = Skeleton p d (map erase cs)"


text \<open>
  The external state of the window: the effective selection of every item, the effective
  value of every value item, the title and the description of the profile.
\<close>

type_synonym external = "(xccdf_item \<Rightarrow> bool) \<times> (xccdf_item \<Rightarrow> string) \<times> string \<times> string"

definition external_state :: "oscap \<Rightarrow> TailoringWindow \<Rightarrow> external" where
  "external_state L w =
     (\<lambda>item. getXccdfItemInternalSelected L (mPolicy w) item,
      \<lambda>xccdfValue. getCurrentValueValue L w xccdfValue,
      getProfileTitle L w,
      getProfileDescription L w)"








text \<open>
  The condition under which the change of a tree item is a change by the user that needs
  a command: no synchronization is going on, the tree item has a backing item that is
  not a value, and its check state is not the selection the policy gives the item.
\<close>

definition pushes_select_command :: "oscap \<Rightarrow> TailoringWindow \<Rightarrow> nat \<Rightarrow> bool" where
  "pushes_select_command L w p =
     (mSynchronizeItemLock w = 0 \<and>
      (case find_item p (itemsTree w) of
         None \<Rightarrow> False
       | Some treeItem \<Rightarrow>
           (case getXccdfItemFromTreeItem treeItem of
              None \<Rightarrow> False
            | Some xccdfItem \<Rightarrow>
                xccdf_item_get_type xccdfItem \<noteq> XCCDF_VALUE \<and>
                ti_checked treeItem \<noteq> getXccdfItemInternalSelected L (mPolicy w) xccdfItem)))"

text \<open>The example window with the check box of its rule checked, and with another title of the profile.\<close>

definition ex_window_checked :: TailoringWindow where
  "ex_window_checked =
     ex_window\<lparr>itemsTree :=
       store_item 4 (setCheckState True (Tree_item 4 ''R'' ''r'' ''rule.png'' (Some ex_rule) True True False []))
         (itemsTree ex_window)\<rparr>"

text \<open>
  \<open>undo_commands\<close> undoes the commands of a list, one after the other, and stops at the
  first that fails.
\<close>

fun undo_commands :: "oscap \<Rightarrow> TailoringWindow \<Rightarrow> undo_command list \<Rightarrow> error + TailoringWindow" where
  "undo_commands L w [] = Inr w"
| "undo_commands L w (c # cs) =
     (case undo L w c of Inl e \<Rightarrow> Inl e | Inr w1 \<Rightarrow> undo_commands L w1 cs)"

definition ex_window_renamed :: TailoringWindow where
  "ex_window_renamed = ex_window\<lparr>mProfile := ex_profile\<lparr>xccdf_profile_get_title := ex_text ''Other''\<rparr>\<rparr>"

text \<open>
  \<open>synchronizes k w w'\<close>: the window \<open>w'\<close> is \<open>w\<close> but for new entries of the log of
  signalled changes, all of them above \<open>k\<close>, and for newly allocated tree items.
\<close>

definition synchronizes :: "nat \<Rightarrow> TailoringWindow \<Rightarrow> TailoringWindow \<Rightarrow> bool" where
  "synchronizes k w w' =
     (\<exists>new p. next_ptr w \<le> p \<and> (\<forall>l\<in>set new. k < l) \<and>
        w' = w\<lparr>itemChanged_log := itemChanged_log w @ new, next_ptr := p\<rparr>)"

text \<open>
  The tree item and the window after the first part of \<^verbatim>\<open>synchronizeTreeItem\<close>, before
  the children are looked at.
\<close>

definition synchronized_item :: "oscap \<Rightarrow> TailoringWindow \<Rightarrow> tree_item \<Rightarrow> xccdf_item \<Rightarrow> tree_item" where
  "synchronized_item L w treeItem xccdfItem =
     (let t4 = setData (Some xccdfItem)
                 (setText1 (xccdf_item_get_id xccdfItem)
                   (setIcon (getShareIcon_of_type (xccdf_item_get_type xccdfItem))
                     (setText0 (oscapTextIteratorGetPreferred L (xccdf_item_get_title xccdfItem)) treeItem)))
      in if xccdf_item_get_type xccdfItem = XCCDF_RULE \<or> xccdf_item_get_type xccdfItem = XCCDF_GROUP
         then (let b = setCheckState (getXccdfItemInternalSelected L (mPolicy w) xccdfItem)
                         (setUserCheckable True t4)
               in syncXCCDFItemChildrenDisabledState b (ti_checked b))
         else if xccdf_item_get_type xccdfItem = XCCDF_VALUE then setUserCheckable False t4
         else t4)"

definition synchronized_window :: "TailoringWindow \<Rightarrow> xccdf_item \<Rightarrow> TailoringWindow" where
  "synchronized_window w xccdfItem =
     (let w5 = signal_itemChanged (signal_itemChanged (signal_itemChanged (signal_itemChanged
                 (w\<lparr>mSynchronizeItemLock := mSynchronizeItemLock w + 1\<rparr>))))
      in if xccdf_item_get_type xccdfItem = XCCDF_RULE \<or> xccdf_item_get_type xccdfItem = XCCDF_GROUP
         then signal_itemChanged (signal_itemChanged (signal_itemChanged w5))
         else if xccdf_item_get_type xccdfItem = XCCDF_VALUE then signal_itemChanged w5
         else w5)"

text \<open>
  \<open>maps_children m cs\<close>: the map takes a backing item to the pointer of the first child
  of \<open>cs\<close> that mirrors it, and knows no other item.
\<close>

definition maps_children :: "(xccdf_item \<rightharpoonup> nat) \<Rightarrow> tree_item list \<Rightarrow> bool" where
  "maps_children m cs =
     (\<forall>x. m x = map_option ti_ptr (find (\<lambda>c. ti_data c = Some x) cs))"

text \<open>
  \<open>mirrors_in_order t x\<close>: every child of the tree item mirrors a child of the item, no
  two of them the same one, and they stand in the order of the document (values before
  rules and groups).
\<close>

definition mirrors_in_order :: "tree_item \<Rightarrow> xccdf_item \<Rightarrow> bool" where
  "mirrors_in_order t x =
     subseq (map ti_data (ti_children t)) (map Some (xccdf_get_values x @ xccdf_get_content x))"

text \<open>
  \<open>fresh_pointers w t\<close>: the children of the tree item are different objects, allocated
  before the next tree item is.
\<close>

definition fresh_pointers :: "TailoringWindow \<Rightarrow> tree_item \<Rightarrow> bool" where
  "fresh_pointers w t =
     (distinct (map ti_ptr (ti_children t)) \<and> list_all (\<lambda>c. ti_ptr c < next_ptr w) (ti_children t))"

text \<open>Two rules, a group holding them, and a tree item for the group with the children swapped.\<close>

definition ex_rule_a :: xccdf_item where
  "ex_rule_a = Xccdf_item XCCDF_RULE ''a'' [] [] True XCCDF_TYPE_STRING [] [] []"

definition ex_rule_b :: xccdf_item where
  "ex_rule_b = Xccdf_item XCCDF_RULE ''b'' [] [] True XCCDF_TYPE_STRING [] [] []"

definition ex_rule_c :: xccdf_item where
  "ex_rule_c = Xccdf_item XCCDF_RULE ''c'' [] [] True XCCDF_TYPE_STRING [] [] []"

definition ex_group_ab :: xccdf_item where
  "ex_group_ab = Xccdf_item XCCDF_GROUP ''g'' [] [] True XCCDF_TYPE_STRING [] [] [ex_rule_a, ex_rule_b]"

definition ex_mirror :: "nat \<Rightarrow> xccdf_item \<Rightarrow> tree_item" where
  "ex_mirror p x = Tree_item p [] (xccdf_item_get_id x) [] (Some x) True True True []"

definition ex_tree_ba :: tree_item where
  "ex_tree_ba = Tree_item 0 [] ''g'' [] (Some ex_group_ab) True True True
     [ex_mirror 1 ex_rule_b, ex_mirror 2 ex_rule_a]"

definition ex_tree_b :: tree_item where
  "ex_tree_b = Tree_item 0 [] ''g'' [] (Some ex_group_ab) True True True [ex_mirror 1 ex_rule_b]"

definition ex_tree_stale :: tree_item where
  "ex_tree_stale = Tree_item 0 [] ''g'' [] (Some ex_group_ab) True True True
     [ex_mirror 1 ex_rule_c, ex_mirror 2 ex_rule_c]"



text \<open>Two external states that agree on the title, the description and the items of \<open>S\<close>.\<close>

definition agree :: "xccdf_item set \<Rightarrow> external \<Rightarrow> external \<Rightarrow> bool" where
  "agree S e e' =
     (case e of (sel, val, t, d) \<Rightarrow> case e' of (sel', val', t', d') \<Rightarrow>
        t = t' \<and> d = d' \<and> (\<forall>i\<in>S. sel i = sel' i \<and> val i = val' i))"






section \<open>The example window\<close>

lemma ex_window_Inr:
  "TailoringWindow_new example_oscap (Some ([], Some ex_profile)) (Some ex_benchmark) False True
     = Inr ex_window"
proof -
  have "isl (TailoringWindow_new example_oscap (Some ([], Some ex_profile)) (Some ex_benchmark) False True)
          = False"
    by code_simp
  then show ?thesis
    unfolding ex_window_def
    by (cases "TailoringWindow_new example_oscap (Some ([], Some ex_profile)) (Some ex_benchmark) False True")
       simp_all
qed


lemma ex_window_mPolicy: "mPolicy ex_window = []"
  unfolding ex_window_def by code_simp

lemma ex_window_mUndoStack: "mUndoStack ex_window = \<lparr>command_list = [], index = 0\<rparr>"
  unfolding ex_window_def by code_simp

lemma ex_window_lock: "mSynchronizeItemLock ex_window = 0"
  unfolding ex_window_def by code_simp

section \<open>Selecting an item\<close>

text \<open>
  C2. \<^verbatim>\<open>setItemSelected\<close> makes a select with the identifier of the item and the given
  flag and appends it to the selects of the profile and to those of the policy. When it
  returns, the policy answers the given flag for the item. When the policy does not, the
  function throws \<^verbatim>\<open>TailoringWindowException\<close> and does not return.
\<close>

theorem setItemSelected_postcondition:
  "case setItemSelected L w xccdfItem selected of
     Inr w' \<Rightarrow>
       xccdf_profile_get_selects (mProfile w') =
         xccdf_profile_get_selects (mProfile w) @
           [\<lparr>xccdf_select_get_item = xccdf_item_get_id xccdfItem, xccdf_select_get_selected = selected\<rparr>] \<and>
       mPolicy w' =
         mPolicy w @
           [\<lparr>xccdf_select_get_item = xccdf_item_get_id xccdfItem, xccdf_select_get_selected = selected\<rparr>] \<and>
       getXccdfItemInternalSelected L (mPolicy w') xccdfItem = selected
   | Inl e \<Rightarrow>
       (\<exists>msg args. e = TailoringWindowException msg args) \<and>
       getXccdfItemInternalSelected L
         (mPolicy w @
           [\<lparr>xccdf_select_get_item = xccdf_item_get_id xccdfItem, xccdf_select_get_selected = selected\<rparr>])
         xccdfItem \<noteq> selected"
  by (simp add: setItemSelected_def Let_def)

text \<open>
  With the example library the rule of the example window becomes selected; with a
  policy that answers with the first select of an item, a second select for the rule is
  not in effect and the function throws.
\<close>

theorem setItemSelected_postcondition_witness:
  "(case setItemSelected example_oscap ex_window ex_rule True of
      Inr w' \<Rightarrow> getXccdfItemInternalSelected example_oscap (mPolicy w') ex_rule = True
    | Inl e \<Rightarrow> False) \<and>
   (case setItemSelected first_wins_oscap
           (ex_window\<lparr>mPolicy := [\<lparr>xccdf_select_get_item = ''r'', xccdf_select_get_selected = False\<rparr>]\<rparr>)
           ex_rule True of
      Inr w' \<Rightarrow> False
    | Inl e \<Rightarrow> True)"
  using setItemSelected_postcondition [of example_oscap ex_window ex_rule True]
    setItemSelected_postcondition [of first_wins_oscap
      "ex_window\<lparr>mPolicy := [\<lparr>xccdf_select_get_item = ''r'', xccdf_select_get_selected = False\<rparr>]\<rparr>"
       ex_rule True]
  by (simp add: setItemSelected_def getXccdfItemInternalSelected_def example_oscap_def
      first_wins_oscap_def ex_rule_def ex_window_mPolicy Let_def)

section \<open>Setting a value\<close>



section \<open>Editing the title and the description of the profile\<close>





lemma setProfileTitle_InrD:
  assumes "setProfileTitle L w title = Inr w'"
  obtains k where "find_text (OSCAP_LANG_DEFAULT L) (xccdf_profile_get_title (mProfile w)) 0 None = Some k"
    and "w' = w\<lparr>mProfile := (mProfile w)\<lparr>xccdf_profile_get_title :=
                (xccdf_profile_get_title (mProfile w))
                  [k := \<lparr>oscap_text_get_lang = OSCAP_LANG_DEFAULT L, oscap_text_get_text = title\<rparr>]\<rparr>\<rparr>"
    and "getProfileTitle L w' = title"
  using assms unfolding setProfileTitle_def Let_def
  by (cases "find_text (OSCAP_LANG_DEFAULT L) (xccdf_profile_get_title (mProfile w)) 0 None")
     (auto split: if_splits)

lemma setProfileDescription_InrD:
  assumes "setProfileDescription L w description = Inr w'"
  obtains k where
    "find_text (OSCAP_LANG_DEFAULT L) (xccdf_profile_get_description (mProfile w)) 0 None = Some k"
    and "w' = w\<lparr>mProfile := (mProfile w)\<lparr>xccdf_profile_get_description :=
                (xccdf_profile_get_description (mProfile w))
                  [k := \<lparr>oscap_text_get_lang = OSCAP_LANG_DEFAULT L, oscap_text_get_text = description\<rparr>]\<rparr>\<rparr>"
    and "getProfileDescription L w' = description"
  using assms unfolding setProfileDescription_def Let_def
  by (cases "find_text (OSCAP_LANG_DEFAULT L) (xccdf_profile_get_description (mProfile w)) 0 None")
     (auto split: if_splits)



section \<open>What the commands change\<close>

text \<open>
  A refresh changes the dock widgets only. The setters and the commands leave the tree
  items where they are, with their backing items, and change the external state (the
  effective selection and value of the items, the title and the description of the
  profile) as \<open>after_redo\<close> and \<open>after_undo\<close> say.
\<close>

lemma set_item_set_item: "set_item f (set_item g w) = set_item (\<lambda>d. f (g d)) w"
  by (simp add: set_item_def)

lemma set_prof_set_prof: "set_prof f (set_prof g w) = set_prof (\<lambda>d. f (g d)) w"
  by (simp add: set_prof_def)

lemma set_item_fields [simp]:
  "mItemPropertiesDockWidget (set_item f w) = f (mItemPropertiesDockWidget w)"
  "mProfilePropertiesDockWidget (set_item f w) = mProfilePropertiesDockWidget w"
  "mProfile (set_item f w) = mProfile w"
  "mPolicy (set_item f w) = mPolicy w"
  "mUndoStack (set_item f w) = mUndoStack w"
  "itemsTree (set_item f w) = itemsTree w"
  "mSynchronizeItemLock (set_item f w) = mSynchronizeItemLock w"
  "itemChanged_log (set_item f w) = itemChanged_log w"
  "mChangesConfirmed (set_item f w) = mChangesConfirmed w"
  by (simp_all add: set_item_def)

lemma set_prof_fields [simp]:
  "mProfilePropertiesDockWidget (set_prof f w) = f (mProfilePropertiesDockWidget w)"
  "mItemPropertiesDockWidget (set_prof f w) = mItemPropertiesDockWidget w"
  "mProfile (set_prof f w) = mProfile w"
  "mPolicy (set_prof f w) = mPolicy w"
  "mUndoStack (set_prof f w) = mUndoStack w"
  "itemsTree (set_prof f w) = itemsTree w"
  "mSynchronizeItemLock (set_prof f w) = mSynchronizeItemLock w"
  "itemChanged_log (set_prof f w) = itemChanged_log w"
  "mChangesConfirmed (set_prof f w) = mChangesConfirmed w"
  by (simp_all add: set_prof_def)

lemma getters_set_item [simp]:
  "getProfileTitle L (set_item f w) = getProfileTitle L w"
  "getProfileDescription L (set_item f w) = getProfileDescription L w"
  "getCurrentValueValue L (set_item f w) v = getCurrentValueValue L w v"
  "getProfileID (set_item f w) = getProfileID w"
  by (simp_all add: getProfileTitle_def getProfileDescription_def getCurrentValueValue_def getProfileID_def)

lemma getters_set_prof [simp]:
  "getProfileTitle L (set_prof f w) = getProfileTitle L w"
  "getProfileDescription L (set_prof f w) = getProfileDescription L w"
  "getCurrentValueValue L (set_prof f w) v = getCurrentValueValue L w v"
  "getProfileID (set_prof f w) = getProfileID w"
  by (simp_all add: getProfileTitle_def getProfileDescription_def getCurrentValueValue_def getProfileID_def)

lemma ex_item_dockI:
  "mXccdfItem A = x \<Longrightarrow>
   \<exists>d. w\<lparr>mItemPropertiesDockWidget := A\<rparr> = w\<lparr>mItemPropertiesDockWidget := d\<rparr> \<and> mXccdfItem d = x"
  by blast

lemma XCCDFItemPropertiesDockWidget_refresh_Inr:
  "\<exists>d. XCCDFItemPropertiesDockWidget_refresh L w = Inr (w\<lparr>mItemPropertiesDockWidget := d\<rparr>) \<and>
       mXccdfItem d = mXccdfItem (mItemPropertiesDockWidget w)"
proof (cases "item_mRefreshInProgress (mItemPropertiesDockWidget w)")
  case True
  then have "XCCDFItemPropertiesDockWidget_refresh L w =
      Inr (w\<lparr>mItemPropertiesDockWidget := mItemPropertiesDockWidget w\<rparr>)"
    by (simp add: XCCDFItemPropertiesDockWidget_refresh.simps [of L w])
  then show ?thesis by blast
next
  case False
  show ?thesis
  proof (cases "mXccdfItem (mItemPropertiesDockWidget w)")
    case None
    with False show ?thesis
      by (simp add: XCCDFItemPropertiesDockWidget_refresh.simps [of L w] Let_def set_item_set_item)
         (auto simp add: set_item_def intro!: ex_item_dockI)
  next
    case (Some item)
    show ?thesis
    proof (cases "xccdf_item_get_type item = XCCDF_VALUE")
      case True
      with False Some show ?thesis
        by (simp add: XCCDFItemPropertiesDockWidget_refresh.simps [of L w] Let_def set_item_set_item)
           (auto simp add: set_item_def intro!: ex_item_dockI)
    next
      case nv: False
      with False Some show ?thesis
        by (simp add: XCCDFItemPropertiesDockWidget_refresh.simps [of L w] Let_def set_item_set_item)
           (auto simp add: set_item_def intro!: ex_item_dockI)
    qed
  qed
qed

lemma ProfilePropertiesDockWidget_refresh_Inr:
  "\<exists>d. ProfilePropertiesDockWidget_refresh L w = Inr (w\<lparr>mProfilePropertiesDockWidget := d\<rparr>)"
proof -
  have id: "w = w\<lparr>mProfilePropertiesDockWidget := mProfilePropertiesDockWidget w\<rparr>" by simp
  show ?thesis
    by (simp add: ProfilePropertiesDockWidget_refresh.simps [of L w] Let_def set_prof_set_prof)
       (auto simp add: set_prof_def intro: exI [of _ "mProfilePropertiesDockWidget w"])
qed

lemma erase_setters [simp]:
  "erase (setText0 s t) = erase t"
  "erase (setText1 s t) = erase t"
  "erase (setIcon s t) = erase t"
  "erase (setUserCheckable b t) = erase t"
  "erase (setDisabled b t) = erase t"
  "erase (setCheckState b t) = erase t"
  by (cases t; simp add: setText0_def setText1_def setIcon_def setUserCheckable_def
      setDisabled_def setCheckState_def)+

lemma erase_setData: "ti_data t = x \<Longrightarrow> erase (setData x t) = erase t"
  by (cases t) (simp add: setData_def)

lemma erase_syncXCCDFItemChildrenDisabledState [simp]:
  "erase (syncXCCDFItemChildrenDisabledState t b) = erase t"
proof (induction t b rule: syncXCCDFItemChildrenDisabledState.induct)
  case (1 p t0 t1 ic d ck en ch children enabled)
  have "map (\<lambda>c. erase (let childEnabled = \<not> isDisabled c
           in if \<not> enabled \<and> childEnabled
              then syncXCCDFItemChildrenDisabledState (setDisabled True c) False
              else if enabled \<and> \<not> childEnabled
              then syncXCCDFItemChildrenDisabledState (setDisabled False c) True
              else c)) children = map erase children"
    using 1 by (intro map_cong refl) (auto simp: Let_def)
  then show ?case by (simp add: comp_def)
qed

lemma ti_data_erase: "erase t = erase u \<Longrightarrow> ti_data t = ti_data u"
  by (cases t; cases u) simp

lemma ti_ptr_erase: "erase t = erase u \<Longrightarrow> ti_ptr t = ti_ptr u"
  by (cases t; cases u) simp

lemma find_item_erase:
  "erase t = erase u \<Longrightarrow> map_option erase (find_item p t) = map_option erase (find_item p u)"
  "map erase ts = map erase us \<Longrightarrow> map_option erase (find_items p ts) = map_option erase (find_items p us)"
proof (induction p t and p ts arbitrary: u and us rule: find_item_find_items.induct)
  case (1 p q t0 t1 ic d ck en ch cs)
  then show ?case by (cases u) auto
next
  case (2 p)
  then show ?case by simp
next
  case (3 p c cs)
  from 3(3) obtain c' cs' where us: "us = c' # cs'" "erase c = erase c'" "map erase cs = map erase cs'"
    by (cases us) auto
  from 3(1) [OF us(2)] have h: "map_option erase (find_item p c) = map_option erase (find_item p c')" .
  show ?case
  proof (cases "find_item p c")
    case None
    with h have "find_item p c' = None" by simp
    with None 3(2) [OF None us(3)] us show ?thesis by simp
  next
    case (Some a)
    with h obtain a' where "find_item p c' = Some a'" "erase a = erase a'" by (cases "find_item p c'") auto
    with Some us show ?thesis by simp
  qed
qed


lemma erase_store_item:
  "find_item p t = Some u \<Longrightarrow> erase u' = erase u \<Longrightarrow> erase (store_item p u' t) = erase t"
  "find_items p ts = Some u \<Longrightarrow> erase u' = erase u \<Longrightarrow> map erase (store_items p u' ts) = map erase ts"
proof (induction p t and p ts rule: find_item_find_items.induct)
  case (1 p q t0 t1 ic d ck en ch cs)
  then show ?case by (auto split: if_splits)
next
  case (2 p)
  then show ?case by simp
next
  case (3 p c cs)
  then show ?case by (cases "find_item p c") auto
qed

lemma find_item_ptr:
  "find_item p t = Some u \<Longrightarrow> ti_ptr u = p"
  "find_items p ts = Some u \<Longrightarrow> ti_ptr u = p"
  by (induction p t and p ts rule: find_item_find_items.induct) (auto split: if_splits option.splits)

lemma find_item_store_item:
  "find_item p t = Some u \<Longrightarrow> ti_ptr u' = p \<Longrightarrow> find_item p (store_item p u' t) = Some u'"
  "find_items p ts = Some u \<Longrightarrow> ti_ptr u' = p \<Longrightarrow> find_items p (store_items p u' ts) = Some u'"
proof (induction p t and p ts rule: find_item_find_items.induct)
  case (1 p q t0 t1 ic d ck en ch cs)
  then show ?case by (cases u') (auto split: if_splits)
next
  case (2 p)
  then show ?case by simp
next
  case (3 p c cs)
  then show ?case by (cases "find_item p c") auto
qed

lemma erase_setData_any: "erase (setData x (setText1 a (setIcon b (setText0 c t)))) = erase (setData x t)"
  by (cases t) (simp add: setData_def setText0_def setText1_def setIcon_def)

lemma synchronizeTreeItem_flat:
  "\<exists>l t'. synchronizeTreeItem L w t item False = (w\<lparr>itemChanged_log := l\<rparr>, t') \<and>
      erase t' = erase (setData (Some item) t)"
proof -
  have lock: "\<And>l. w\<lparr>mSynchronizeItemLock := mSynchronizeItemLock w + 1, itemChanged_log := l,
                     mSynchronizeItemLock := mSynchronizeItemLock w\<rparr> = w\<lparr>itemChanged_log := l\<rparr>"
    by simp
  show ?thesis
    unfolding synchronizeTreeItem.simps [of L w t item False] Let_def signal_itemChanged_def
    by (simp add: erase_setData_any) blast
qed

lemma synchronizeTreeItem_ptr: "ti_ptr (snd (synchronizeTreeItem L w t item False)) = ti_ptr t"
  unfolding synchronizeTreeItem.simps [of L w t item False] Let_def
  by (cases t)
     (simp add: setData_def setText0_def setText1_def setIcon_def setUserCheckable_def setCheckState_def)

lemma TailoringWindow_synchronizeTreeItem_flat:
  assumes "find_item p (itemsTree w) = Some t" "ti_data t = Some item"
  shows "\<exists>l tr. TailoringWindow_synchronizeTreeItem L w p item False =
            Inr (w\<lparr>itemChanged_log := l, itemsTree := tr\<rparr>) \<and> erase tr = erase (itemsTree w)"
proof -
  obtain l t' where s: "synchronizeTreeItem L w t item False = (w\<lparr>itemChanged_log := l\<rparr>, t')"
    and e: "erase t' = erase (setData (Some item) t)"
    using synchronizeTreeItem_flat by blast
  from e assms(2) have e': "erase t' = erase t" by (simp add: erase_setData)
  have "TailoringWindow_synchronizeTreeItem L w p item False =
          Inr (w\<lparr>itemChanged_log := l, itemsTree := store_item p t' (itemsTree w)\<rparr>)"
    using assms(1) s by (simp add: TailoringWindow_synchronizeTreeItem_def)
  moreover have "erase (store_item p t' (itemsTree w)) = erase (itemsTree w)"
    using erase_store_item(1) [OF assms(1) e'] .
  ultimately show ?thesis by blast
qed

lemma select_command_Inr:
  assumes "select_command L w p b = Inr w'"
  obtains t item l tr where
    "find_item p (itemsTree w) = Some t" "ti_data t = Some item"
    "getXccdfItemInternalSelected L
       (mPolicy w @ [\<lparr>xccdf_select_get_item = xccdf_item_get_id item, xccdf_select_get_selected = b\<rparr>])
       item = b"
    "w' = w\<lparr>mProfile := (mProfile w)\<lparr>xccdf_profile_get_selects :=
                xccdf_profile_get_selects (mProfile w) @
                  [\<lparr>xccdf_select_get_item = xccdf_item_get_id item, xccdf_select_get_selected = b\<rparr>]\<rparr>,
              mPolicy := mPolicy w @
                  [\<lparr>xccdf_select_get_item = xccdf_item_get_id item, xccdf_select_get_selected = b\<rparr>],
              itemChanged_log := l, itemsTree := tr\<rparr>"
    "erase tr = erase (itemsTree w)"
proof -
  from assms obtain t where t: "find_item p (itemsTree w) = Some t"
    by (auto simp: select_command_def split: option.splits)
  from assms t obtain item where item: "ti_data t = Some item"
    by (auto simp: select_command_def getXccdfItemFromTreeItem_def split: option.splits)
  let ?s = "\<lparr>xccdf_select_get_item = xccdf_item_get_id item, xccdf_select_get_selected = b\<rparr>"
  let ?w1 = "w\<lparr>mProfile := (mProfile w)\<lparr>xccdf_profile_get_selects :=
                xccdf_profile_get_selects (mProfile w) @ [?s]\<rparr>, mPolicy := mPolicy w @ [?s]\<rparr>"
  from assms t item have set: "setItemSelected L w item b = Inr ?w1"
    and ok: "getXccdfItemInternalSelected L (mPolicy w @ [?s]) item = b"
    by (auto simp: select_command_def getXccdfItemFromTreeItem_def setItemSelected_def Let_def
        split: sum.splits if_splits)
  from assms t item set have w': "TailoringWindow_synchronizeTreeItem L ?w1 p item False = Inr w'"
    by (simp add: select_command_def getXccdfItemFromTreeItem_def)
  have "find_item p (itemsTree ?w1) = Some t" using t by simp
  from TailoringWindow_synchronizeTreeItem_flat [OF this item, of L] w'
  obtain l tr where "w' = ?w1\<lparr>itemChanged_log := l, itemsTree := tr\<rparr>" "erase tr = erase (itemsTree w)"
    by auto
  then have "w' = w\<lparr>mProfile := (mProfile w)\<lparr>xccdf_profile_get_selects :=
                xccdf_profile_get_selects (mProfile w) @ [?s]\<rparr>, mPolicy := mPolicy w @ [?s],
              itemChanged_log := l, itemsTree := tr\<rparr>" "erase tr = erase (itemsTree w)"
    by simp_all
  with t item ok show thesis by (rule that)
qed

lemma external_state_set_prof [simp]: "external_state L (set_prof f w) = external_state L w"
  by (simp add: external_state_def)

lemma external_state_set_item [simp]: "external_state L (set_item f w) = external_state L w"
  by (simp add: external_state_def)

lemma external_state_docks [simp]:
  "external_state L (w\<lparr>mProfilePropertiesDockWidget := d\<rparr>) = external_state L w"
  "external_state L (w\<lparr>mItemPropertiesDockWidget := d'\<rparr>) = external_state L w"
  by (simp_all add: external_state_def getProfileTitle_def getProfileDescription_def
      getCurrentValueValue_def)







lemma setValueValue_InrD:
  assumes "setValueValue L w v x = Inr w'"
  obtains "w' = w\<lparr>mProfile := (mProfile w)\<lparr>xccdf_profile_get_setvalues :=
                    xccdf_profile_get_setvalues (mProfile w) @
                      [\<lparr>xccdf_setvalue_get_item = xccdf_item_get_id v, xccdf_setvalue_get_value = x\<rparr>]\<rparr>\<rparr>"
    and "getCurrentValueValue L w' v = x"
  using assms unfolding setValueValue_def Let_def by (auto split: if_splits)

lemma setValueValue_frame:
  assumes "setValueValue L w v x = Inr w'"
  shows "itemsTree w' = itemsTree w" "mUndoStack w' = mUndoStack w"
    "mItemPropertiesDockWidget w' = mItemPropertiesDockWidget w"
    "mSynchronizeItemLock w' = mSynchronizeItemLock w"
  using assms by (auto elim!: setValueValue_InrD)

lemma setProfileTitle_frame:
  assumes "setProfileTitle L w x = Inr w'"
  shows "itemsTree w' = itemsTree w" "mUndoStack w' = mUndoStack w"
    "mItemPropertiesDockWidget w' = mItemPropertiesDockWidget w"
    "mSynchronizeItemLock w' = mSynchronizeItemLock w"
  using assms by (auto elim!: setProfileTitle_InrD)

lemma setProfileDescription_frame:
  assumes "setProfileDescription L w x = Inr w'"
  shows "itemsTree w' = itemsTree w" "mUndoStack w' = mUndoStack w"
    "mItemPropertiesDockWidget w' = mItemPropertiesDockWidget w"
    "mSynchronizeItemLock w' = mSynchronizeItemLock w"
  using assms by (auto elim!: setProfileDescription_InrD)

lemma select_command_frame:
  assumes "select_command L w p b = Inr w'"
  shows "erase (itemsTree w') = erase (itemsTree w)" "mUndoStack w' = mUndoStack w"
    "mItemPropertiesDockWidget w' = mItemPropertiesDockWidget w"
    "mSynchronizeItemLock w' = mSynchronizeItemLock w"
  using assms by (auto elim!: select_command_Inr)

lemma redo_frame:
  assumes r: "redo L w c = Inr w'"
  shows "erase (itemsTree w') = erase (itemsTree w)"
    and "mUndoStack w' = mUndoStack w"
    and "mXccdfItem (mItemPropertiesDockWidget w') = mXccdfItem (mItemPropertiesDockWidget w)"
    and "mSynchronizeItemLock w' = mSynchronizeItemLock w"
proof -
  have "erase (itemsTree w') = erase (itemsTree w) \<and> mUndoStack w' = mUndoStack w \<and>
        mXccdfItem (mItemPropertiesDockWidget w') = mXccdfItem (mItemPropertiesDockWidget w) \<and>
        mSynchronizeItemLock w' = mSynchronizeItemLock w"
  proof (cases c)
    case (ProfileTitleChangeUndoCommand old new)
    with r obtain w1 where 1: "setProfileTitle L w new = Inr w1"
      and 2: "ProfilePropertiesDockWidget_refresh L w1 = Inr w'"
      by (auto split: sum.splits)
    from 2 ProfilePropertiesDockWidget_refresh_Inr [of L w1]
    obtain d where "w' = w1\<lparr>mProfilePropertiesDockWidget := d\<rparr>" by auto
    with setProfileTitle_frame [OF 1] show ?thesis by simp
  next
    case (ProfileDescriptionChangeUndoCommand old new)
    with r obtain w1 where 1: "setProfileDescription L w new = Inr w1"
      and 2: "ProfilePropertiesDockWidget_refresh L w1 = Inr w'"
      by (auto split: sum.splits)
    from 2 ProfilePropertiesDockWidget_refresh_Inr [of L w1]
    obtain d where "w' = w1\<lparr>mProfilePropertiesDockWidget := d\<rparr>" by auto
    with setProfileDescription_frame [OF 1] show ?thesis by simp
  next
    case (XCCDFItemSelectUndoCommand p b)
    with r have "select_command L w p b = Inr w'" by simp
    from select_command_frame [OF this] show ?thesis by simp
  next
    case (XCCDFValueChangeUndoCommand v new old)
    with r obtain w1 where 1: "setValueValue L w v new = Inr w1"
      and 2: "XCCDFItemPropertiesDockWidget_refresh L w1 = Inr w'"
      by (auto split: sum.splits)
    from 2 XCCDFItemPropertiesDockWidget_refresh_Inr [of L w1]
    obtain d where "w' = w1\<lparr>mItemPropertiesDockWidget := d\<rparr>"
      "mXccdfItem d = mXccdfItem (mItemPropertiesDockWidget w1)" by auto
    with setValueValue_frame [OF 1] show ?thesis by simp
  qed
  then show "erase (itemsTree w') = erase (itemsTree w)"
    and "mUndoStack w' = mUndoStack w"
    and "mXccdfItem (mItemPropertiesDockWidget w') = mXccdfItem (mItemPropertiesDockWidget w)"
    and "mSynchronizeItemLock w' = mSynchronizeItemLock w"
    by simp_all
qed

lemma undo_frame:
  assumes r: "undo L w c = Inr w'"
  shows "erase (itemsTree w') = erase (itemsTree w)"
    and "mUndoStack w' = mUndoStack w"
    and "mXccdfItem (mItemPropertiesDockWidget w') = mXccdfItem (mItemPropertiesDockWidget w)"
    and "mSynchronizeItemLock w' = mSynchronizeItemLock w"
proof -
  have "erase (itemsTree w') = erase (itemsTree w) \<and> mUndoStack w' = mUndoStack w \<and>
        mXccdfItem (mItemPropertiesDockWidget w') = mXccdfItem (mItemPropertiesDockWidget w) \<and>
        mSynchronizeItemLock w' = mSynchronizeItemLock w"
  proof (cases c)
    case (ProfileTitleChangeUndoCommand old new)
    with r obtain w1 where 1: "setProfileTitle L w old = Inr w1"
      and 2: "ProfilePropertiesDockWidget_refresh L w1 = Inr w'"
      by (auto split: sum.splits)
    from 2 ProfilePropertiesDockWidget_refresh_Inr [of L w1]
    obtain d where "w' = w1\<lparr>mProfilePropertiesDockWidget := d\<rparr>" by auto
    with setProfileTitle_frame [OF 1] show ?thesis by simp
  next
    case (ProfileDescriptionChangeUndoCommand old new)
    with r obtain w1 where 1: "setProfileDescription L w old = Inr w1"
      and 2: "ProfilePropertiesDockWidget_refresh L w1 = Inr w'"
      by (auto split: sum.splits)
    from 2 ProfilePropertiesDockWidget_refresh_Inr [of L w1]
    obtain d where "w' = w1\<lparr>mProfilePropertiesDockWidget := d\<rparr>" by auto
    with setProfileDescription_frame [OF 1] show ?thesis by simp
  next
    case (XCCDFItemSelectUndoCommand p b)
    with r have "select_command L w p (\<not> b) = Inr w'" by simp
    from select_command_frame [OF this] show ?thesis by simp
  next
    case (XCCDFValueChangeUndoCommand v new old)
    with r obtain w1 where 1: "setValueValue L w v old = Inr w1"
      and 2: "XCCDFItemPropertiesDockWidget_refresh L w1 = Inr w'"
      by (auto split: sum.splits)
    from 2 XCCDFItemPropertiesDockWidget_refresh_Inr [of L w1]
    obtain d where "w' = w1\<lparr>mItemPropertiesDockWidget := d\<rparr>"
      "mXccdfItem d = mXccdfItem (mItemPropertiesDockWidget w1)" by auto
    with setValueValue_frame [OF 1] show ?thesis by simp
  qed
  then show "erase (itemsTree w') = erase (itemsTree w)"
    and "mUndoStack w' = mUndoStack w"
    and "mXccdfItem (mItemPropertiesDockWidget w') = mXccdfItem (mItemPropertiesDockWidget w)"
    and "mSynchronizeItemLock w' = mSynchronizeItemLock w"
    by simp_all
qed

lemma QUndoStack_push_Inr:
  assumes "QUndoStack_push L w c = Inr w'"
  obtains w1 where "redo L w c = Inr w1" "w' = w1\<lparr>mUndoStack := stack_push (mUndoStack w) c\<rparr>"
proof -
  from assms obtain w1 where 1: "redo L w c = Inr w1"
    and 2: "w' = w1\<lparr>mUndoStack := stack_push (mUndoStack w1) c\<rparr>"
    by (auto simp: QUndoStack_push.simps split: sum.splits)
  from redo_frame(2) [OF 1] 2 have "w' = w1\<lparr>mUndoStack := stack_push (mUndoStack w) c\<rparr>" by simp
  with 1 show thesis by (rule that)
qed


lemma external_state_itemsTree [simp]:
  "external_state L (w\<lparr>itemsTree := t\<rparr>) = external_state L w"
  by (simp add: external_state_def getProfileTitle_def getProfileDescription_def getCurrentValueValue_def)

section \<open>The change of a tree item\<close>

lemma stack_push_select:
  "stack_push s (XCCDFItemSelectUndoCommand p b) =
     \<lparr>command_list = take (index s) (command_list s) @ [XCCDFItemSelectUndoCommand p b],
      index = index s + 1\<rparr>"
proof -
  have "\<And>c. command_id c = command_id (XCCDFItemSelectUndoCommand p b) \<Longrightarrow>
      mergeWith c (XCCDFItemSelectUndoCommand p b) = (False, c)"
    by (case_tac c) (simp_all add: command_id_def)
  then show ?thesis
    by (auto simp: stack_push_def Let_def split: option.splits prod.splits bool.splits)
qed

lemma find_item_erase_Some:
  assumes "erase t = erase u" "find_item p t = Some a"
  obtains b where "find_item p u = Some b" "erase a = erase b"
proof -
  from find_item_erase(1) [OF assms(1), of p] assms(2)
  obtain b where "find_item p u = Some b" "erase a = erase b"
    by (cases "find_item p u") auto
  then show thesis by (rule that)
qed

text \<open>
  C10. \<^verbatim>\<open>itemChanged\<close> pushes a select command exactly when the counter of
  synchronizations is zero, the tree item has a backing item, the backing item is not a
  value, and the check state of the tree item differs from the selection the policy gives
  the item. When it returns in that case, the undo stack has the select command for the
  new check state appended after the commands below the position; when it returns in any
  other case, the undo stack, the policy and the profile are what they were. In every other
  case it does return, for every pointer to a tree item of the window.
\<close>

theorem itemChanged_pushes_iff:
  "(\<forall>w'. itemChanged L w p = Inr w' \<longrightarrow>
      (if pushes_select_command L w p
       then \<exists>treeItem. find_item p (itemsTree w) = Some treeItem \<and>
              mUndoStack w' =
                \<lparr>command_list = take (index (mUndoStack w)) (command_list (mUndoStack w)) @
                                  [XCCDFItemSelectUndoCommand p (ti_checked treeItem)],
                 index = index (mUndoStack w) + 1\<rparr>
       else mUndoStack w' = mUndoStack w \<and> mPolicy w' = mPolicy w \<and> mProfile w' = mProfile w)) \<and>
   (\<not> pushes_select_command L w p \<and> find_item p (itemsTree w) \<noteq> None \<longrightarrow>
      (\<exists>w'. itemChanged L w p = Inr w'))"
proof (intro conjI allI impI)
  fix w' assume r: "itemChanged L w p = Inr w'"
  show "if pushes_select_command L w p
       then \<exists>treeItem. find_item p (itemsTree w) = Some treeItem \<and>
              mUndoStack w' =
                \<lparr>command_list = take (index (mUndoStack w)) (command_list (mUndoStack w)) @
                                  [XCCDFItemSelectUndoCommand p (ti_checked treeItem)],
                 index = index (mUndoStack w) + 1\<rparr>
       else mUndoStack w' = mUndoStack w \<and> mPolicy w' = mPolicy w \<and> mProfile w' = mProfile w"
  proof (cases "pushes_select_command L w p")
    case True
    then obtain t item where lock: "mSynchronizeItemLock w = 0"
      and t: "find_item p (itemsTree w) = Some t"
      and item: "getXccdfItemFromTreeItem t = Some item"
      and ty: "xccdf_item_get_type item \<noteq> XCCDF_VALUE"
      and ne: "ti_checked t \<noteq> getXccdfItemInternalSelected L (mPolicy w) item"
      by (auto simp: pushes_select_command_def split: option.splits)
    from r lock t item ty ne obtain w1 where
      1: "QUndoStack_push L w (XCCDFItemSelectUndoCommand p (ti_checked t)) = Inr w1"
      by (auto simp: itemChanged_def Let_def split: sum.splits)
    from r lock t item ty ne 1 have "mUndoStack w' = mUndoStack w1"
      by (auto simp: itemChanged_def Let_def split: option.splits)
    moreover from 1 have "mUndoStack w1 = stack_push (mUndoStack w) (XCCDFItemSelectUndoCommand p (ti_checked t))"
      by (auto elim!: QUndoStack_push_Inr)
    ultimately show ?thesis using True t by (simp add: stack_push_select)
  next
    case False
    with r show ?thesis
      by (auto simp: itemChanged_def pushes_select_command_def Let_def split: option.splits if_splits)
  qed
next
  assume a: "\<not> pushes_select_command L w p \<and> find_item p (itemsTree w) \<noteq> None"
  then show "\<exists>w'. itemChanged L w p = Inr w'"
    by (auto simp: itemChanged_def pushes_select_command_def Let_def split: option.splits)
qed

theorem itemChanged_pushes_iff_witness:
  "pushes_select_command example_oscap ex_window_checked 4 \<and>
   (\<exists>w'. itemChanged example_oscap ex_window_checked 4 = Inr w' \<and>
      mUndoStack w' = \<lparr>command_list = [XCCDFItemSelectUndoCommand 4 True], index = 1\<rparr>) \<and>
   \<not> pushes_select_command example_oscap ex_window 4 \<and>
   (\<exists>w'. itemChanged example_oscap ex_window 4 = Inr w' \<and>
      mUndoStack w' = \<lparr>command_list = [], index = 0\<rparr>)"
proof -
  have p: "pushes_select_command example_oscap ex_window_checked 4"
    unfolding ex_window_checked_def ex_window_def by code_simp
  have np: "\<not> pushes_select_command example_oscap ex_window 4"
    unfolding ex_window_def by code_simp
  have r: "isl (itemChanged example_oscap ex_window_checked 4) = False"
    unfolding ex_window_checked_def ex_window_def by code_simp
  then obtain w' where w': "itemChanged example_oscap ex_window_checked 4 = Inr w'"
    by (cases "itemChanged example_oscap ex_window_checked 4") auto
  have c: "map_option ti_checked (find_item 4 (itemsTree ex_window_checked)) = Some True"
    unfolding ex_window_checked_def ex_window_def by code_simp
  have s: "mUndoStack ex_window_checked = \<lparr>command_list = [], index = 0\<rparr>"
    by (simp add: ex_window_checked_def ex_window_mUndoStack)
  have f: "find_item 4 (itemsTree ex_window) \<noteq> None"
    unfolding ex_window_def by code_simp
  from itemChanged_pushes_iff [of example_oscap ex_window_checked 4] w' p c s
  have 1: "mUndoStack w' = \<lparr>command_list = [XCCDFItemSelectUndoCommand 4 True], index = 1\<rparr>"
    by auto
  from itemChanged_pushes_iff [of example_oscap ex_window 4] np f
  obtain w'' where "itemChanged example_oscap ex_window 4 = Inr w''"
    "mUndoStack w'' = mUndoStack ex_window"
    by auto
  with p np w' 1 show ?thesis by (auto simp: ex_window_mUndoStack)
qed

section \<open>Closing the window\<close>

lemma setIndex_undo_commands:
  "i \<le> length (command_list (mUndoStack w)) \<Longrightarrow>
   setIndex_undo L w i 0 = undo_commands L w (rev (take i (command_list (mUndoStack w))))"
proof (induction i arbitrary: w)
  case 0
  then show ?case by (simp add: setIndex_undo.simps)
next
  case (Suc i)
  let ?cs = "command_list (mUndoStack w)"
  from Suc.prems have i: "i < length ?cs" by simp
  then have tk: "rev (take (Suc i) ?cs) = ?cs ! i # rev (take i ?cs)"
    by (simp add: take_Suc_conv_app_nth)
  show ?case
  proof (cases "undo L w (?cs ! i)")
    case (Inl e)
    then show ?thesis by (simp add: setIndex_undo.simps [of L w "Suc i"] tk)
  next
    case (Inr w1)
    from undo_frame(2) [OF Inr] have s: "mUndoStack w1 = mUndoStack w" .
    with Suc.IH [of w1] i have "setIndex_undo L w1 i 0 = undo_commands L w1 (rev (take i ?cs))"
      by simp
    with Inr show ?thesis by (simp add: setIndex_undo.simps [of L w "Suc i"] tk)
  qed
qed

lemma undo_commands_frame:
  "undo_commands L w cs = Inr w' \<Longrightarrow>
   mUndoStack w' = mUndoStack w \<and> erase (itemsTree w') = erase (itemsTree w)"
proof (induction cs arbitrary: w)
  case Nil
  then show ?case by simp
next
  case (Cons c cs)
  then obtain w1 where 1: "undo L w c = Inr w1" and 2: "undo_commands L w1 cs = Inr w'"
    by (auto split: sum.splits)
  from Cons.IH [OF 2] undo_frame(1,2) [OF 1] show ?case by simp
qed

lemma QUndoStack_setIndex_0:
  assumes "index (mUndoStack w) \<le> length (command_list (mUndoStack w))"
  shows "QUndoStack_setIndex L w 0 =
     (case undo_commands L w (rev (take (index (mUndoStack w)) (command_list (mUndoStack w)))) of
        Inl e \<Rightarrow> Inl e
      | Inr w1 \<Rightarrow> Inr (w1\<lparr>mUndoStack := (mUndoStack w1)\<lparr>index := 0\<rparr>\<rparr>))"
proof -
  from assms have m: "min (index (mUndoStack w)) (length (command_list (mUndoStack w))) = index (mUndoStack w)"
    by simp
  show ?thesis
    unfolding QUndoStack_setIndex_def Let_def m
    using setIndex_undo_commands [OF assms, of L]
    by (simp add: setIndex_redo.simps [of L w _ 0])
qed

lemma undo_session:
  assumes r: "undo L w c = Inr w'"
  shows "mChangesConfirmed w' = mChangesConfirmed w \<and> mNewProfile w' = mNewProfile w \<and>
         mParentMainWindow w' = mParentMainWindow w \<and> closed w' = closed w \<and>
         notifyTailoringFinished w' = notifyTailoringFinished w"
proof (cases c)
  case (ProfileTitleChangeUndoCommand old new)
  with r obtain w1 where 1: "setProfileTitle L w old = Inr w1"
    and 2: "ProfilePropertiesDockWidget_refresh L w1 = Inr w'"
    by (auto split: sum.splits)
  from 2 ProfilePropertiesDockWidget_refresh_Inr [of L w1]
  obtain d where "w' = w1\<lparr>mProfilePropertiesDockWidget := d\<rparr>" by auto
  with 1 show ?thesis by (auto elim!: setProfileTitle_InrD)
next
  case (ProfileDescriptionChangeUndoCommand old new)
  with r obtain w1 where 1: "setProfileDescription L w old = Inr w1"
    and 2: "ProfilePropertiesDockWidget_refresh L w1 = Inr w'"
    by (auto split: sum.splits)
  from 2 ProfilePropertiesDockWidget_refresh_Inr [of L w1]
  obtain d where "w' = w1\<lparr>mProfilePropertiesDockWidget := d\<rparr>" by auto
  with 1 show ?thesis by (auto elim!: setProfileDescription_InrD)
next
  case (XCCDFItemSelectUndoCommand p b)
  with r have "select_command L w p (\<not> b) = Inr w'" by simp
  then show ?thesis by (auto elim!: select_command_Inr)
next
  case (XCCDFValueChangeUndoCommand v new old)
  with r obtain w1 where 1: "setValueValue L w v old = Inr w1"
    and 2: "XCCDFItemPropertiesDockWidget_refresh L w1 = Inr w'"
    by (auto split: sum.splits)
  from 2 XCCDFItemPropertiesDockWidget_refresh_Inr [of L w1]
  obtain d where "w' = w1\<lparr>mItemPropertiesDockWidget := d\<rparr>" by auto
  with 1 show ?thesis by (auto elim!: setValueValue_InrD)
qed

lemma undo_commands_session:
  "undo_commands L w cs = Inr w' \<Longrightarrow>
   mChangesConfirmed w' = mChangesConfirmed w \<and> mNewProfile w' = mNewProfile w \<and>
   mParentMainWindow w' = mParentMainWindow w \<and> closed w' = closed w \<and>
   notifyTailoringFinished w' = notifyTailoringFinished w"
proof (induction cs arbitrary: w)
  case Nil
  then show ?case by simp
next
  case (Cons c cs)
  then obtain w1 where 1: "undo L w c = Inr w1" and 2: "undo_commands L w1 cs = Inr w'"
    by (auto split: sum.splits)
  from Cons.IH [OF 2] undo_session [OF 1] show ?case by simp
qed

text \<open>
  C9. Closing the window while the changes are not confirmed asks the user. When the user
  declines, \<^verbatim>\<open>closeEvent\<close> returns the window as it was: nothing is undone,
  nothing closed, the position of the undo stack unchanged. When the user accepts, the
  commands below the position are undone from the top down, the position is set to 0, and
  only then the window is closed and the parent notified; an undo that fails ends the
  close with that error. The position of the undo stack is taken to be within the stack.
\<close>

theorem closeEvent_unconfirmed:
  assumes "\<not> mChangesConfirmed w"
    and "index (mUndoStack w) \<le> length (command_list (mUndoStack w))"
  shows "closeEvent L w False = Inr w \<and>
     closeEvent L w True =
       (case undo_commands L w (rev (take (index (mUndoStack w)) (command_list (mUndoStack w)))) of
          Inl e \<Rightarrow> Inl e
        | Inr w1 \<Rightarrow>
            Inr (w1\<lparr>mUndoStack := (mUndoStack w)\<lparr>index := 0\<rparr>,
                    closed := True,
                    notifyTailoringFinished :=
                      (if mParentMainWindow w then Some (mNewProfile w, False)
                       else notifyTailoringFinished w)\<rparr>))"
proof
  from assms(1) show "closeEvent L w False = Inr w"
    by (simp add: closeEvent_def)
  show "closeEvent L w True =
       (case undo_commands L w (rev (take (index (mUndoStack w)) (command_list (mUndoStack w)))) of
          Inl e \<Rightarrow> Inl e
        | Inr w1 \<Rightarrow>
            Inr (w1\<lparr>mUndoStack := (mUndoStack w)\<lparr>index := 0\<rparr>,
                    closed := True,
                    notifyTailoringFinished :=
                      (if mParentMainWindow w then Some (mNewProfile w, False)
                       else notifyTailoringFinished w)\<rparr>))"
  proof (cases "undo_commands L w (rev (take (index (mUndoStack w)) (command_list (mUndoStack w))))")
    case (Inl e)
    with assms show ?thesis
      by (simp add: closeEvent_def QUndoStack_setIndex_0)
  next
    case (Inr w1)
    from undo_commands_frame [OF Inr] have s: "mUndoStack w1 = mUndoStack w" by simp
    from undo_commands_session [OF Inr] assms(1)
    have f: "mChangesConfirmed w1 = False" "mNewProfile w1 = mNewProfile w"
      "mParentMainWindow w1 = mParentMainWindow w" "notifyTailoringFinished w1 = notifyTailoringFinished w"
      by simp_all
    have n: "w1\<lparr>notifyTailoringFinished := notifyTailoringFinished w\<rparr> = w1"
      using f(4) by (metis TailoringWindow.surjective TailoringWindow.update_convs(14))
    from assms Inr s f show ?thesis
      by (cases "mParentMainWindow w") (simp_all add: closeEvent_def QUndoStack_setIndex_0 n)
  qed
qed

theorem closeEvent_unconfirmed_witness:
  "\<exists>w. users example_oscap ex_window [TypeTitle ''My''] = Inr w \<and>
     index (mUndoStack w) = 1 \<and>
     closeEvent example_oscap w False = Inr w \<and>
     (\<exists>w'. closeEvent example_oscap w True = Inr w' \<and> index (mUndoStack w') = 0 \<and> closed w' \<and>
        getProfileTitle example_oscap w' = ''Default Profile'')"
proof -
  have r: "isl (users example_oscap ex_window [TypeTitle ''My'']) = False"
    unfolding ex_window_def by code_simp
  then obtain w where w: "users example_oscap ex_window [TypeTitle ''My''] = Inr w"
    by (cases "users example_oscap ex_window [TypeTitle ''My'']") auto
  have "map_sum id (\<lambda>w. (mChangesConfirmed w, mUndoStack w))
          (users example_oscap ex_window [TypeTitle ''My'']) =
        Inr (False, \<lparr>command_list = [ProfileTitleChangeUndoCommand ''Default Profile'' ''My''], index = 1\<rparr>)"
    unfolding ex_window_def by code_simp
  with w have c: "\<not> mChangesConfirmed w"
    and s: "mUndoStack w = \<lparr>command_list = [ProfileTitleChangeUndoCommand ''Default Profile'' ''My''], index = 1\<rparr>"
    by simp_all
  have "map_sum id (\<lambda>w. map_sum id (\<lambda>w'. (closed w', getProfileTitle example_oscap w'))
           (closeEvent example_oscap w True))
          (users example_oscap ex_window [TypeTitle ''My'']) =
        Inr (Inr (True, ''Default Profile''))"
    unfolding ex_window_def by code_simp
  with w obtain w' where w': "closeEvent example_oscap w True = Inr w'" "closed w'"
    "getProfileTitle example_oscap w' = ''Default Profile''"
    by (cases "closeEvent example_oscap w True") auto
  from closeEvent_unconfirmed [of w example_oscap] c s w'(1)
  have "closeEvent example_oscap w False = Inr w" "index (mUndoStack w') = 0"
    by (auto split: sum.splits)
  with w s w' show ?thesis by auto
qed

section \<open>Merging value changes\<close>



section \<open>Refreshing the dock widgets\<close>

text \<open>
  C6. A refresh of the profile dock widget or of the item dock widget returns, and leaves
  the undo stack, the profile and the policy as they were, whatever fields it changes.
  The slots for a changed title, description or value return the window unchanged while
  the refresh of their dock widget is in progress; outside of a refresh they push the
  command for the change.
\<close>

theorem refresh_pushes_no_command:
  "(\<exists>w'. ProfilePropertiesDockWidget_refresh L w = Inr w' \<and> mUndoStack w' = mUndoStack w \<and>
          mProfile w' = mProfile w \<and> mPolicy w' = mPolicy w) \<and>
   (\<exists>w'. XCCDFItemPropertiesDockWidget_refresh L w = Inr w' \<and> mUndoStack w' = mUndoStack w \<and>
          mProfile w' = mProfile w \<and> mPolicy w' = mPolicy w) \<and>
   (prof_mRefreshInProgress (mProfilePropertiesDockWidget w) \<longrightarrow>
      profileTitleChanged L w t = Inr w \<and> profileDescriptionChanged L w = Inr w) \<and>
   (item_mRefreshInProgress (mItemPropertiesDockWidget w) \<longrightarrow> valueChanged L w t = Inr w) \<and>
   (\<not> prof_mRefreshInProgress (mProfilePropertiesDockWidget w) \<longrightarrow>
      profileTitleChanged L w t =
        QUndoStack_push L w (ProfileTitleChangeUndoCommand (getProfileTitle L w) t) \<and>
      profileDescriptionChanged L w =
        QUndoStack_push L w
          (ProfileDescriptionChangeUndoCommand (getProfileDescription L w)
             (prof_ui_description (mProfilePropertiesDockWidget w)))) \<and>
   (\<not> item_mRefreshInProgress (mItemPropertiesDockWidget w) \<longrightarrow>
      (\<forall>item. mXccdfItem (mItemPropertiesDockWidget w) = Some item \<and>
              xccdf_item_get_type item = XCCDF_VALUE \<longrightarrow>
         valueChanged L w t =
           QUndoStack_push L w (XCCDFValueChangeUndoCommand item t (getCurrentValueValue L w item))))"
proof -
  from ProfilePropertiesDockWidget_refresh_Inr [of L w]
  have 1: "\<exists>w'. ProfilePropertiesDockWidget_refresh L w = Inr w' \<and> mUndoStack w' = mUndoStack w \<and>
          mProfile w' = mProfile w \<and> mPolicy w' = mPolicy w"
    by auto
  from XCCDFItemPropertiesDockWidget_refresh_Inr [of L w]
  have 2: "\<exists>w'. XCCDFItemPropertiesDockWidget_refresh L w = Inr w' \<and> mUndoStack w' = mUndoStack w \<and>
          mProfile w' = mProfile w \<and> mPolicy w' = mPolicy w"
    by auto
  from 1 2 show ?thesis by simp
qed

theorem refresh_pushes_no_command_witness:
  "(\<exists>w'. ProfilePropertiesDockWidget_refresh example_oscap ex_window_renamed = Inr w' \<and>
      prof_ui_title (mProfilePropertiesDockWidget ex_window_renamed) = ''Default Profile'' \<and>
      prof_ui_title (mProfilePropertiesDockWidget w') = ''Other'' \<and>
      mUndoStack w' = \<lparr>command_list = [], index = 0\<rparr>) \<and>
   profileTitleChanged example_oscap ex_window ''My'' =
     QUndoStack_push example_oscap ex_window (ProfileTitleChangeUndoCommand ''Default Profile'' ''My'')"
proof -
  have a: "map_sum id (\<lambda>w'. prof_ui_title (mProfilePropertiesDockWidget w'))
             (ProfilePropertiesDockWidget_refresh example_oscap ex_window_renamed) = Inr ''Other''"
    unfolding ex_window_renamed_def ex_window_def by code_simp
  have b: "prof_ui_title (mProfilePropertiesDockWidget ex_window_renamed) = ''Default Profile''"
    unfolding ex_window_renamed_def ex_window_def by code_simp
  have c: "\<not> prof_mRefreshInProgress (mProfilePropertiesDockWidget ex_window)"
    unfolding ex_window_def by code_simp
  have d: "getProfileTitle example_oscap ex_window = ''Default Profile''"
    unfolding ex_window_def by code_simp
  have s: "mUndoStack ex_window_renamed = \<lparr>command_list = [], index = 0\<rparr>"
    by (simp add: ex_window_renamed_def ex_window_mUndoStack)
  from refresh_pushes_no_command [of example_oscap ex_window_renamed "''My''"] a b s
  have 1: "\<exists>w'. ProfilePropertiesDockWidget_refresh example_oscap ex_window_renamed = Inr w' \<and>
      prof_ui_title (mProfilePropertiesDockWidget ex_window_renamed) = ''Default Profile'' \<and>
      prof_ui_title (mProfilePropertiesDockWidget w') = ''Other'' \<and>
      mUndoStack w' = \<lparr>command_list = [], index = 0\<rparr>"
    by auto
  from refresh_pushes_no_command [of example_oscap ex_window "''My''"] c d
  have 2: "profileTitleChanged example_oscap ex_window ''My'' =
     QUndoStack_push example_oscap ex_window (ProfileTitleChangeUndoCommand ''Default Profile'' ''My'')"
    by simp
  from 1 2 show ?thesis by simp
qed

section \<open>Synchronizing a tree item\<close>

subsection \<open>What a synchronization changes of the window\<close>

lemma synchronizes_refl: "synchronizes k w w"
  unfolding synchronizes_def by (intro exI [of _ "[]"] exI [of _ "next_ptr w"]) simp

lemma synchronizes_trans:
  assumes "synchronizes k w w'" "synchronizes k w' w''"
  shows "synchronizes k w w''"
proof -
  from assms(1) obtain n1 p1 where 1: "next_ptr w \<le> p1" "\<forall>l\<in>set n1. k < l"
    "w' = w\<lparr>itemChanged_log := itemChanged_log w @ n1, next_ptr := p1\<rparr>"
    unfolding synchronizes_def by blast
  from assms(2) obtain n2 p2 where 2: "next_ptr w' \<le> p2" "\<forall>l\<in>set n2. k < l"
    "w'' = w'\<lparr>itemChanged_log := itemChanged_log w' @ n2, next_ptr := p2\<rparr>"
    unfolding synchronizes_def by blast
  have "w'' = w\<lparr>itemChanged_log := itemChanged_log w @ (n1 @ n2), next_ptr := p2\<rparr>"
    unfolding 2(3) 1(3) by simp
  moreover from 1 2 have "next_ptr w \<le> p2" by simp
  moreover from 1 2 have "\<forall>l\<in>set (n1 @ n2). k < l" by auto
  ultimately show ?thesis unfolding synchronizes_def by blast
qed

lemma synchronizes_signal:
  "k < mSynchronizeItemLock w \<Longrightarrow> synchronizes k w (signal_itemChanged w)"
  unfolding synchronizes_def signal_itemChanged_def
  by (intro exI [of _ "[mSynchronizeItemLock w]"] exI [of _ "next_ptr w"]) simp

lemma synchronizes_alloc: "synchronizes k w (w\<lparr>next_ptr := next_ptr w + 1\<rparr>)"
  unfolding synchronizes_def
  by (intro exI [of _ "[]"] exI [of _ "next_ptr w + 1"]) simp

lemma synchronizes_mono:
  assumes "synchronizes k w w'" "k' \<le> k"
  shows "synchronizes k' w w'"
proof -
  from assms(1) obtain new p where 1: "next_ptr w \<le> p" "\<forall>l\<in>set new. k < l"
    "w' = w\<lparr>itemChanged_log := itemChanged_log w @ new, next_ptr := p\<rparr>"
    unfolding synchronizes_def by blast
  from 1(2) assms(2) have "\<forall>l\<in>set new. k' < l" by auto
  with 1 show ?thesis unfolding synchronizes_def by blast
qed

lemma synchronizes_lock: "synchronizes k w w' \<Longrightarrow> mSynchronizeItemLock w' = mSynchronizeItemLock w"
  unfolding synchronizes_def by auto

lemma synchronizes_fields:
  assumes "synchronizes k w w'"
  shows "mPolicy w' = mPolicy w" "mProfile w' = mProfile w" "mUndoStack w' = mUndoStack w"
    "itemsTree w' = itemsTree w" "next_ptr w \<le> next_ptr w'"
  using assms unfolding synchronizes_def by auto

text \<open>Entering and leaving: what happens inside at \<open>lock + 1\<close> is, outside, a step above \<open>lock\<close>.\<close>

lemma synchronizes_bracket:
  assumes "synchronizes (mSynchronizeItemLock w) (w\<lparr>mSynchronizeItemLock := mSynchronizeItemLock w + 1\<rparr>) w7"
  shows "synchronizes (mSynchronizeItemLock w) w (w7\<lparr>mSynchronizeItemLock := mSynchronizeItemLock w7 - 1\<rparr>)"
proof -
  from assms obtain new p where 1: "next_ptr w \<le> p" "\<forall>l\<in>set new. mSynchronizeItemLock w < l"
    "w7 = w\<lparr>mSynchronizeItemLock := mSynchronizeItemLock w + 1,
             itemChanged_log := itemChanged_log w @ new, next_ptr := p\<rparr>"
    unfolding synchronizes_def by auto
  have "w7\<lparr>mSynchronizeItemLock := mSynchronizeItemLock w7 - 1\<rparr> =
        w\<lparr>itemChanged_log := itemChanged_log w @ new, next_ptr := p\<rparr>"
    unfolding 1(3) by simp
  with 1 show ?thesis unfolding synchronizes_def by blast
qed

lemma add_items_loop_synchronizes:
  assumes "\<And>x w t. x \<in> set items \<Longrightarrow>
     synchronizes (mSynchronizeItemLock w) w (fst (synchronizeTreeItem L w t x True))"
  shows "synchronizes (mSynchronizeItemLock w) w (fst (add_items_loop L m w children idx items))"
  using assms
proof (induction items arbitrary: w children idx)
  case Nil
  then show ?case by (simp add: synchronizes_refl)
next
  case (Cons x rest)
  have step: "\<And>w t. synchronizes (mSynchronizeItemLock w) w (fst (synchronizeTreeItem L w t x True))"
    using Cons.prems by simp
  have rest: "\<And>w children idx.
      synchronizes (mSynchronizeItemLock w) w (fst (add_items_loop L m w children idx rest))"
    using Cons.IH Cons.prems by simp
  show ?case
  proof (cases "m x")
    case None
    let ?w1 = "w\<lparr>next_ptr := next_ptr w + 1\<rparr>"
    let ?c = "new_QTreeWidgetItem (next_ptr w)"
    obtain w2 c' where s: "synchronizeTreeItem L ?w1 ?c x True = (w2, c')"
      by (cases "synchronizeTreeItem L ?w1 ?c x True")
    from step [of ?w1 ?c] s have a: "synchronizes (mSynchronizeItemLock w) ?w1 w2" by simp
    then have l2: "mSynchronizeItemLock w2 = mSynchronizeItemLock w"
      by (simp add: synchronizes_lock)
    from rest [of w2 "store_child c' (insertChild idx ?c children)" "idx + 1"] l2
    have b: "synchronizes (mSynchronizeItemLock w) w2
        (fst (add_items_loop L m w2 (store_child c' (insertChild idx ?c children)) (idx + 1) rest))"
      by simp
    from synchronizes_trans [OF synchronizes_trans [OF synchronizes_alloc a] b]
    show ?thesis using None s by (simp add: Let_def)
  next
    case (Some p)
    show ?thesis
    proof (cases "find_child p children")
      case None
      with Some rest [of w children "idx + 1"] show ?thesis by simp
    next
      case (Some c)
      obtain w2 c' where s: "synchronizeTreeItem L w c x True = (w2, c')"
        by (cases "synchronizeTreeItem L w c x True")
      from step [of w c] s have a: "synchronizes (mSynchronizeItemLock w) w w2" by simp
      then have l2: "mSynchronizeItemLock w2 = mSynchronizeItemLock w"
        by (simp add: synchronizes_lock)
      from rest [of w2 "store_child c' children" "idx + 1"] l2
      have b: "synchronizes (mSynchronizeItemLock w) w2
          (fst (add_items_loop L m w2 (store_child c' children) (idx + 1) rest))"
        by simp
      from synchronizes_trans [OF a b] show ?thesis using \<open>m x = Some p\<close> Some s by simp
    qed
  qed
qed

lemma itemsToAdd_of_subset:
  "set (itemsToAdd_of x) \<subseteq> set (xccdf_get_values x) \<union> set (xccdf_get_content x)"
  by (auto simp: itemsToAdd_of_def split: xccdf_type.splits)

lemma synchronizeTreeItem_unfold:
  "synchronizeTreeItem L w t x r =
     (if r then
        (let (children, m) = existing_items_loop (itemsToAdd_of x) (ti_children (synchronized_item L w t x)) 0 Map.empty;
             (w', children') = add_items_loop L m (synchronized_window w x) children 0 (itemsToAdd_of x)
         in (w'\<lparr>mSynchronizeItemLock := mSynchronizeItemLock w' - 1\<rparr>,
             setChildren children' (synchronized_item L w t x)))
      else ((synchronized_window w x)\<lparr>mSynchronizeItemLock := mSynchronizeItemLock (synchronized_window w x) - 1\<rparr>,
            synchronized_item L w t x))"
  unfolding synchronizeTreeItem.simps [of L w t x r] synchronized_item_def synchronized_window_def Let_def
  by (simp split: prod.splits)

lemma synchronized_window_synchronizes:
  "synchronizes (mSynchronizeItemLock w) (w\<lparr>mSynchronizeItemLock := mSynchronizeItemLock w + 1\<rparr>)
     (synchronized_window w x)"
proof -
  let ?k = "mSynchronizeItemLock w"
  let ?w1 = "w\<lparr>mSynchronizeItemLock := Suc (mSynchronizeItemLock w)\<rparr>"
  have sig: "\<And>v. synchronizes ?k ?w1 v \<Longrightarrow> synchronizes ?k ?w1 (signal_itemChanged v)"
  proof -
    fix v assume v: "synchronizes ?k ?w1 v"
    then have "mSynchronizeItemLock v = Suc ?k" by (simp add: synchronizes_lock)
    then have "synchronizes ?k v (signal_itemChanged v)" by (intro synchronizes_signal) simp
    with v show "synchronizes ?k ?w1 (signal_itemChanged v)" by (rule synchronizes_trans)
  qed
  have "synchronizes ?k ?w1 (synchronized_window w x)"
    unfolding synchronized_window_def Let_def
    by (simp add: sig synchronizes_refl)
  then show ?thesis by simp
qed

lemma synchronizeTreeItem_synchronizes:
  "synchronizes (mSynchronizeItemLock w) w (fst (synchronizeTreeItem L w t x r))"
proof (induction x arbitrary: w t r)
  case (Xccdf_item ty ident title desc sel vt inst vals content)
  let ?x = "Xccdf_item ty ident title desc sel vt inst vals content"
  let ?k = "mSynchronizeItemLock w"
  let ?w1 = "w\<lparr>mSynchronizeItemLock := mSynchronizeItemLock w + 1\<rparr>"
  let ?w6 = "synchronized_window w ?x"
  have w6: "synchronizes ?k ?w1 ?w6" by (rule synchronized_window_synchronizes)
  then have l: "mSynchronizeItemLock ?w6 = ?k + 1" by (simp add: synchronizes_lock)
  have IH: "\<And>y w t. y \<in> set (itemsToAdd_of ?x) \<Longrightarrow>
      synchronizes (mSynchronizeItemLock w) w (fst (synchronizeTreeItem L w t y True))"
    using Xccdf_item.IH itemsToAdd_of_subset [of ?x] by auto
  have loop: "\<And>m children.
      synchronizes ?k ?w1 (fst (add_items_loop L m ?w6 children 0 (itemsToAdd_of ?x)))"
  proof -
    fix m children
    from add_items_loop_synchronizes [of "itemsToAdd_of ?x" L ?w6 m children 0] IH
    have "synchronizes (mSynchronizeItemLock ?w6) ?w6 (fst (add_items_loop L m ?w6 children 0 (itemsToAdd_of ?x)))"
      by blast
    then have "synchronizes ?k ?w6 (fst (add_items_loop L m ?w6 children 0 (itemsToAdd_of ?x)))"
      by (rule synchronizes_mono) (simp add: l)
    with w6 show "synchronizes ?k ?w1 (fst (add_items_loop L m ?w6 children 0 (itemsToAdd_of ?x)))"
      by (rule synchronizes_trans)
  qed
  show ?case
  proof (cases r)
    case False
    with synchronizes_bracket [OF w6] show ?thesis
      by (simp add: synchronizeTreeItem_unfold)
  next
    case True
    obtain children m where e: "existing_items_loop (itemsToAdd_of ?x)
        (ti_children (synchronized_item L w t ?x)) 0 Map.empty = (children, m)"
      by (cases "existing_items_loop (itemsToAdd_of ?x) (ti_children (synchronized_item L w t ?x)) 0 Map.empty")
    obtain w' children' where a: "add_items_loop L m ?w6 children 0 (itemsToAdd_of ?x) = (w', children')"
      by (cases "add_items_loop L m ?w6 children 0 (itemsToAdd_of ?x)")
    from loop [of m children] a have "synchronizes ?k ?w1 w'" by simp
    from synchronizes_bracket [OF this] True e a show ?thesis
      by (simp add: synchronizeTreeItem_unfold)
  qed
qed

subsection \<open>The order of the children\<close>

lemma find_append_None: "find P xs = None \<Longrightarrow> find P (xs @ ys) = find P ys"
  by (induction xs) (auto split: if_splits)

lemma find_append_Some: "find P xs = Some a \<Longrightarrow> find P (xs @ ys) = Some a"
  by (induction xs) (auto split: if_splits)

lemma find_None_data: "Some x \<notin> set (map ti_data cs) \<Longrightarrow> find (\<lambda>c. ti_data c = Some x) cs = None"
  by (induction cs) auto

lemma existing_items_loop_keeps:
  assumes "\<forall>c\<in>set cs. \<exists>x\<in>set items. ti_data c = Some x"
    and "distinct (map ti_data cs)"
    and "i \<le> length cs"
    and "maps_children m (take i cs)"
  shows "\<exists>m'. existing_items_loop items cs i m = (cs, m') \<and> maps_children m' cs"
  using assms(3,4)
proof (induction "length cs - i" arbitrary: i m)
  case 0
  then have "i = length cs" by simp
  with 0 show ?case by (simp add: existing_items_loop.simps [of items cs "length cs" m])
next
  case (Suc n)
  then have i: "i < length cs" by simp
  let ?c = "cs ! i"
  from assms(1) i obtain x where x: "x \<in> set items" "ti_data ?c = Some x"
    by (metis nth_mem)
  have tk: "take (Suc i) cs = take i cs @ [?c]"
    using i by (simp add: take_Suc_conv_app_nth)
  have notin: "Some x \<notin> set (map ti_data (take i cs))"
  proof -
    from assms(2) have "distinct (map ti_data (take (Suc i) cs))"
      by (metis distinct_take take_map)
    then show ?thesis using x(2) by (simp add: tk)
  qed
  have "maps_children (m(x \<mapsto> ti_ptr ?c)) (take (Suc i) cs)"
    unfolding maps_children_def
  proof
    fix y
    show "(m(x \<mapsto> ti_ptr ?c)) y =
        map_option ti_ptr (find (\<lambda>c. ti_data c = Some y) (take (Suc i) cs))"
    proof (cases "y = x")
      case True
      from find_None_data [OF notin] have "find (\<lambda>c. ti_data c = Some x) (take i cs) = None" .
      then show ?thesis using True x(2) by (simp add: tk find_append_None)
    next
      case False
      have "find (\<lambda>c. ti_data c = Some y) (take i cs @ [?c]) = find (\<lambda>c. ti_data c = Some y) (take i cs)"
      proof (cases "find (\<lambda>c. ti_data c = Some y) (take i cs)")
        case None
        then show ?thesis using False x(2) by (simp add: find_append_None)
      next
        case (Some a)
        then show ?thesis by (simp add: find_append_Some)
      qed
      with Suc.prems(2) False show ?thesis by (simp add: tk maps_children_def)
    qed
  qed
  moreover from Suc(2) have "n = length cs - Suc i" by simp
  ultimately obtain m' where
    "existing_items_loop items cs (Suc i) (m(x \<mapsto> ti_ptr ?c)) = (cs, m')" "maps_children m' cs"
    using Suc(1) [of "Suc i" "m(x \<mapsto> ti_ptr ?c)"] i by auto
  with i x show ?case
    by (simp add: existing_items_loop.simps [of items cs i m] getXccdfItemFromTreeItem_def)
qed

lemma subseq_Cons_head:
  assumes "subseq ys (x # xs)" "x \<in> set ys" "x \<notin> set xs"
  obtains ys' where "ys = x # ys'" "subseq ys' xs"
proof (cases ys)
  case Nil
  with assms(2) show ?thesis by simp
next
  case (Cons y ys')
  show ?thesis
  proof (cases "y = x")
    case True
    with assms(1) Cons have "subseq ys' xs" by simp
    with True Cons show ?thesis by (intro that) auto
  next
    case False
    with assms(1) Cons have "subseq ys xs" by simp
    then have "set ys \<subseteq> set xs" by (auto dest: list_emb_set)
    with assms(2,3) show ?thesis by auto
  qed
qed

lemma subseq_Cons_skip:
  assumes "subseq ys (x # xs)" "x \<notin> set ys"
  shows "subseq ys xs"
proof (cases ys)
  case Nil
  then show ?thesis by simp
next
  case (Cons y ys')
  with assms(2) have "y \<noteq> x" by auto
  with assms(1) Cons show ?thesis by simp
qed

lemma erase_synchronized_item: "erase (synchronized_item L w t x) = erase (setData (Some x) t)"
  by (simp add: synchronized_item_def Let_def erase_setData_any)

lemma setData_fields [simp]: "ti_ptr (setData d t) = ti_ptr t" "ti_data (setData d t) = d"
  "ti_children (setData d t) = ti_children t"
  by (cases t; simp add: setData_def)+

lemma setChildren_fields [simp]: "ti_ptr (setChildren cs t) = ti_ptr t"
  "ti_data (setChildren cs t) = ti_data t" "ti_children (setChildren cs t) = cs"
  by (cases t; simp add: setChildren_def)+

lemma synchronized_item_fields:
  "ti_ptr (synchronized_item L w t x) = ti_ptr t"
  "ti_data (synchronized_item L w t x) = Some x"
  "map ti_ptr (ti_children (synchronized_item L w t x)) = map ti_ptr (ti_children t)"
  "map ti_data (ti_children (synchronized_item L w t x)) = map ti_data (ti_children t)"
proof -
  have e: "erase (synchronized_item L w t x) = erase (setData (Some x) t)"
    by (rule erase_synchronized_item)
  from ti_ptr_erase [OF e] show "ti_ptr (synchronized_item L w t x) = ti_ptr t" by simp
  from ti_data_erase [OF e] show "ti_data (synchronized_item L w t x) = Some x" by simp
  from e have m: "map erase (ti_children (synchronized_item L w t x)) = map erase (ti_children t)"
    by (cases "synchronized_item L w t x"; cases t) (simp add: setData_def)
  have p: "\<And>u. ti_ptr u = (case erase u of Skeleton p d cs \<Rightarrow> p)"
    "\<And>u. ti_data u = (case erase u of Skeleton p d cs \<Rightarrow> d)"
    by (case_tac u, simp)+
  have "map ti_ptr (ti_children (synchronized_item L w t x)) =
        map (\<lambda>s. case s of Skeleton p d cs \<Rightarrow> p) (map erase (ti_children (synchronized_item L w t x)))"
    by (simp add: comp_def p(1))
  also have "\<dots> = map ti_ptr (ti_children t)" unfolding m by (simp add: comp_def p(1))
  finally show "map ti_ptr (ti_children (synchronized_item L w t x)) = map ti_ptr (ti_children t)" .
  have "map ti_data (ti_children (synchronized_item L w t x)) =
        map (\<lambda>s. case s of Skeleton p d cs \<Rightarrow> d) (map erase (ti_children (synchronized_item L w t x)))"
    by (simp add: comp_def p(2))
  also have "\<dots> = map ti_data (ti_children t)" unfolding m by (simp add: comp_def p(2))
  finally show "map ti_data (ti_children (synchronized_item L w t x)) = map ti_data (ti_children t)" .
qed

lemma synchronizeTreeItem_item:
  "ti_ptr (snd (synchronizeTreeItem L w t x r)) = ti_ptr t"
  "ti_data (snd (synchronizeTreeItem L w t x r)) = Some x"
  by (simp_all add: synchronizeTreeItem_unfold synchronized_item_fields split: prod.splits)

lemma store_child_append:
  assumes "\<forall>c\<in>set A. ti_ptr c \<noteq> ti_ptr new" "ti_ptr b = ti_ptr new"
  shows "store_child new (A @ b # B) = A @ new # B"
  using assms by (induction A) auto

lemma find_child_append:
  assumes "\<forall>c\<in>set A. ti_ptr c \<noteq> p" "ti_ptr b = p"
  shows "find_child p (A @ b # B) = Some b"
  using assms unfolding find_child_def by (induction A) auto

lemma find_Some_data:
  "find (\<lambda>c. ti_data c = Some x) cs = Some c \<Longrightarrow> c \<in> set cs \<and> ti_data c = Some x"
  by (induction cs) (auto split: if_splits)

lemma distinct_insert_mid: "distinct (xs @ ys) \<Longrightarrow> a \<notin> set (xs @ ys) \<Longrightarrow> distinct (xs @ a # ys)"
  by auto

lemma notin_ptrs:
  assumes "distinct (map ti_ptr (A @ b # B'))"
  shows "\<forall>c\<in>set A. ti_ptr c \<noteq> ti_ptr b"
proof
  fix c assume "c \<in> set A"
  then have "ti_ptr c \<in> set (map ti_ptr A)" by simp
  moreover from assms have "ti_ptr b \<notin> set (map ti_ptr A)" by simp
  ultimately show "ti_ptr c \<noteq> ti_ptr b" by metis
qed

lemma add_items_loop_order:
  assumes "distinct rest"
    and "subseq (map ti_data B) (map Some rest)"
    and "\<forall>x\<in>set rest. m x = map_option ti_ptr (find (\<lambda>c. ti_data c = Some x) B)"
    and "distinct (map ti_ptr (A @ B))"
    and "\<forall>c\<in>set (A @ B). ti_ptr c < next_ptr w"
    and "idx = length A"
  shows "map ti_data (snd (add_items_loop L m w (A @ B) idx rest)) = map ti_data A @ map Some rest"
  using assms
proof (induction rest arbitrary: A B w idx)
  case Nil
  from Nil(2) have "map ti_data B = []" by (auto dest: list_emb_Nil2)
  then have "B = []" by simp
  then show ?case by simp
next
  case (Cons x rest)
  from Cons.prems(1) have x: "x \<notin> set rest" and d: "distinct rest" by simp_all
  then have sx: "Some x \<notin> set (map Some rest)" by auto
  from Cons.prems(2) have s2: "subseq (map ti_data B) (Some x # map Some rest)" by simp
  from Cons.prems(3) have mx: "m x = map_option ti_ptr (find (\<lambda>c. ti_data c = Some x) B)" by simp
  show ?case
  proof (cases "m x")
    case None
    with mx have nf: "find (\<lambda>c. ti_data c = Some x) B = None" by simp
    have nx: "Some x \<notin> set (map ti_data B)"
    proof
      assume "Some x \<in> set (map ti_data B)"
      then have "Some x \<in> ti_data ` set B" by (simp only: set_map)
      then obtain c where "c \<in> set B" "ti_data c = Some x" by (metis imageE)
      with nf show False by (simp add: find_None_iff)
    qed
    from s2 nx have sub: "subseq (map ti_data B) (map Some rest)"
      by (rule subseq_Cons_skip)
    let ?w1 = "w\<lparr>next_ptr := next_ptr w + 1\<rparr>"
    let ?c = "new_QTreeWidgetItem (next_ptr w)"
    obtain w2 c' where s: "synchronizeTreeItem L ?w1 ?c x True = (w2, c')"
      by (cases "synchronizeTreeItem L ?w1 ?c x True")
    have "ti_ptr (snd (synchronizeTreeItem L ?w1 ?c x True)) = ti_ptr ?c"
      "ti_data (snd (synchronizeTreeItem L ?w1 ?c x True)) = Some x"
      by (rule synchronizeTreeItem_item)+
    with s have c': "ti_ptr c' = next_ptr w" "ti_data c' = Some x"
      by (simp_all add: new_QTreeWidgetItem_def)
    have "synchronizes (mSynchronizeItemLock ?w1) ?w1 (fst (synchronizeTreeItem L ?w1 ?c x True))"
      by (rule synchronizeTreeItem_synchronizes)
    with s have "synchronizes (mSynchronizeItemLock ?w1) ?w1 w2" by simp
    then have "next_ptr ?w1 \<le> next_ptr w2" by (rule synchronizes_fields(5))
    then have np: "next_ptr w < next_ptr w2" by simp
    have ins: "insertChild idx ?c (A @ B) = A @ ?c # B"
      using Cons.prems(6) by (simp add: insertChild_def)
    have fr: "next_ptr w \<notin> set (map ti_ptr (A @ B))"
    proof
      assume "next_ptr w \<in> set (map ti_ptr (A @ B))"
      then have "next_ptr w \<in> ti_ptr ` set (A @ B)" by (simp only: set_map)
      then obtain c where "c \<in> set (A @ B)" "ti_ptr c = next_ptr w" by (metis imageE)
      with Cons.prems(5) show False by force
    qed
    have fresh: "\<forall>c\<in>set A. ti_ptr c \<noteq> ti_ptr c'"
    proof
      fix c assume "c \<in> set A"
      then have "c \<in> set (A @ B)" by simp
      with Cons.prems(5) have "ti_ptr c < next_ptr w" by blast
      then show "ti_ptr c \<noteq> ti_ptr c'" unfolding c'(1) by simp
    qed
    have pc: "ti_ptr ?c = ti_ptr c'" by (simp add: c'(1) new_QTreeWidgetItem_def)
    have st: "store_child c' (A @ ?c # B) = A @ c' # B"
      using fresh pc by (rule store_child_append)
    have m': "\<forall>y\<in>set rest. m y = map_option ti_ptr (find (\<lambda>c. ti_data c = Some y) B)"
      using Cons.prems(3) by simp
    have "distinct (map ti_ptr A @ next_ptr w # map ti_ptr B)"
      using Cons.prems(4) fr by (intro distinct_insert_mid) simp_all
    then have dp: "distinct (map ti_ptr ((A @ [c']) @ B))" by (simp add: c'(1))
    have lt: "\<forall>c\<in>set ((A @ [c']) @ B). ti_ptr c < next_ptr w2"
    proof
      fix c assume "c \<in> set ((A @ [c']) @ B)"
      then have "c \<in> set (A @ B) \<or> c = c'" by auto
      then show "ti_ptr c < next_ptr w2"
      proof
        assume "c \<in> set (A @ B)"
        with Cons.prems(5) have "ti_ptr c < next_ptr w" by blast
        with np show ?thesis by simp
      next
        assume "c = c'"
        with c'(1) np show ?thesis by simp
      qed
    qed
    have i: "idx + 1 = length (A @ [c'])" using Cons.prems(6) by simp
    from Cons.IH [OF d sub m' dp lt i]
    have "map ti_data (snd (add_items_loop L m w2 ((A @ [c']) @ B) (idx + 1) rest)) =
          map ti_data (A @ [c']) @ map Some rest" .
    with None s ins st c'(2) show ?thesis by (simp add: Let_def)
  next
    case (Some p)
    with mx obtain b where b: "find (\<lambda>c. ti_data c = Some x) B = Some b" "ti_ptr b = p"
      by (cases "find (\<lambda>c. ti_data c = Some x) B") auto
    from find_Some_data [OF b(1)] have bin: "b \<in> set B" "ti_data b = Some x" by simp_all
    then have inB: "Some x \<in> set (map ti_data B)" by force
    from subseq_Cons_head [OF s2 inB sx]
    obtain D where D: "map ti_data B = Some x # D" "subseq D (map Some rest)" by blast
    then obtain b' B' where B: "B = b' # B'" "ti_data b' = Some x" "map ti_data B' = D"
      by (cases B) auto
    with b(1) have bb: "b' = b" by simp
    from Cons.prems(4) have "distinct (map ti_ptr (A @ b # B'))" by (simp add: B bb)
    from notin_ptrs [OF this] b(2) have notA: "\<forall>c\<in>set A. ti_ptr c \<noteq> p" by simp
    have fc: "find_child p (A @ B) = Some b"
      unfolding B bb using notA b(2) by (rule find_child_append)
    obtain w2 c' where s: "synchronizeTreeItem L w b x True = (w2, c')"
      by (cases "synchronizeTreeItem L w b x True")
    have "ti_ptr (snd (synchronizeTreeItem L w b x True)) = ti_ptr b"
      "ti_data (snd (synchronizeTreeItem L w b x True)) = Some x"
      by (rule synchronizeTreeItem_item)+
    with s b(2) have c': "ti_ptr c' = p" "ti_data c' = Some x" by simp_all
    have "synchronizes (mSynchronizeItemLock w) w (fst (synchronizeTreeItem L w b x True))"
      by (rule synchronizeTreeItem_synchronizes)
    with s have "synchronizes (mSynchronizeItemLock w) w w2" by simp
    then have np: "next_ptr w \<le> next_ptr w2" by (rule synchronizes_fields(5))
    have notA': "\<forall>c\<in>set A. ti_ptr c \<noteq> ti_ptr c'" using notA c'(1) by simp
    have pc: "ti_ptr b = ti_ptr c'" using b(2) c'(1) by simp
    have st: "store_child c' (A @ B) = A @ c' # B'"
      unfolding B bb using notA' pc by (rule store_child_append)
    have m': "\<forall>y\<in>set rest. m y = map_option ti_ptr (find (\<lambda>c. ti_data c = Some y) B')"
    proof
      fix y assume y: "y \<in> set rest"
      with x have "y \<noteq> x" by auto
      with B have "find (\<lambda>c. ti_data c = Some y) B = find (\<lambda>c. ti_data c = Some y) B'" by simp
      with Cons.prems(3) y show "m y = map_option ti_ptr (find (\<lambda>c. ti_data c = Some y) B')" by simp
    qed
    have "map ti_ptr ((A @ [c']) @ B') = map ti_ptr (A @ B)"
      by (simp add: B bb c'(1) b(2))
    with Cons.prems(4) have dp: "distinct (map ti_ptr ((A @ [c']) @ B'))" by simp
    have lt: "\<forall>c\<in>set ((A @ [c']) @ B'). ti_ptr c < next_ptr w2"
    proof
      fix c assume "c \<in> set ((A @ [c']) @ B')"
      then have "c \<in> set (A @ B) \<or> c = c'" by (auto simp: B)
      then show "ti_ptr c < next_ptr w2"
      proof
        assume "c \<in> set (A @ B)"
        with Cons.prems(5) have "ti_ptr c < next_ptr w" by blast
        with np show ?thesis by simp
      next
        assume "c = c'"
        moreover from Cons.prems(5) bin(1) have "ti_ptr b < next_ptr w" by simp
        ultimately show ?thesis using c'(1) b(2) np by simp
      qed
    qed
    from D B have sub: "subseq (map ti_data B') (map Some rest)" by simp
    have i: "idx + 1 = length (A @ [c'])" using Cons.prems(6) by simp
    from Cons.IH [OF d sub m' dp lt i]
    have "map ti_data (snd (add_items_loop L m w2 ((A @ [c']) @ B') (idx + 1) rest)) =
          map ti_data (A @ [c']) @ map Some rest" .
    with Some fc s st c'(2) show ?thesis by simp
  qed
qed

lemma subseq_distinct: "subseq ys xs \<Longrightarrow> distinct xs \<Longrightarrow> distinct ys"
  using subseqs_distinctD [of ys xs] by simp

lemma subseq_in_set:
  assumes "subseq ys xs" "y \<in> set ys"
  shows "y \<in> set xs"
proof -
  from list_emb_set [OF assms] obtain y' where "y' \<in> set xs" "y = y'" by blast
  then show ?thesis by simp
qed

text \<open>
  C3, as amended. A tree item is synchronized recursively with a group or a benchmark
  whose children are different items. The children the tree item has on entry each mirror
  a child of the item, no two the same one, and stand in the order of the document; they
  are different objects. Then the children of the tree item afterwards mirror the values of
  the item followed by its rules and groups, each in the order of the document.
\<close>

theorem synchronized_children_in_document_order:
  assumes ty: "xccdf_item_get_type x = XCCDF_GROUP \<or> xccdf_item_get_type x = XCCDF_BENCHMARK"
    and di: "distinct (xccdf_get_values x @ xccdf_get_content x)"
    and mi: "mirrors_in_order t x"
    and fp: "fresh_pointers w t"
  shows "map ti_data (ti_children (snd (synchronizeTreeItem L w t x True))) =
           map Some (xccdf_get_values x @ xccdf_get_content x)"
proof -
  let ?items = "xccdf_get_values x @ xccdf_get_content x"
  let ?t5 = "synchronized_item L w t x"
  let ?w6 = "synchronized_window w x"
  let ?cs = "ti_children ?t5"
  from ty have items: "itemsToAdd_of x = ?items" by (auto simp: itemsToAdd_of_def)
  have dat: "map ti_data ?cs = map ti_data (ti_children t)"
    and ptr: "map ti_ptr ?cs = map ti_ptr (ti_children t)"
    by (simp_all add: synchronized_item_fields)
  from mi have sub: "subseq (map ti_data ?cs) (map Some ?items)"
    unfolding mirrors_in_order_def dat .
  from di have "distinct (map Some ?items)"
    by (simp only: distinct_map) (simp add: inj_on_def)
  with sub have dd: "distinct (map ti_data ?cs)" by (rule subseq_distinct)
  have stale: "\<forall>c\<in>set ?cs. \<exists>y\<in>set ?items. ti_data c = Some y"
  proof
    fix c assume "c \<in> set ?cs"
    then have "ti_data c \<in> set (map ti_data ?cs)" by simp
    with sub have "ti_data c \<in> set (map Some ?items)" by (rule subseq_in_set)
    then have "ti_data c \<in> Some ` set ?items" by (simp only: set_map)
    then show "\<exists>y\<in>set ?items. ti_data c = Some y" by (metis imageE)
  qed
  have "maps_children Map.empty (take 0 ?cs)" by (simp add: maps_children_def)
  from existing_items_loop_keeps [OF stale dd _ this]
  obtain m where ex: "existing_items_loop ?items ?cs 0 Map.empty = (?cs, m)" and m: "maps_children m ?cs"
    by auto
  have "synchronizes (mSynchronizeItemLock w) (w\<lparr>mSynchronizeItemLock := mSynchronizeItemLock w + 1\<rparr>) ?w6"
    by (rule synchronized_window_synchronizes)
  then have "next_ptr (w\<lparr>mSynchronizeItemLock := mSynchronizeItemLock w + 1\<rparr>) \<le> next_ptr ?w6"
    by (rule synchronizes_fields(5))
  then have np: "next_ptr w \<le> next_ptr ?w6" by simp
  have dp: "distinct (map ti_ptr ([] @ ?cs))"
    using fp by (simp add: fresh_pointers_def ptr)
  have lt: "\<forall>c\<in>set ([] @ ?cs). ti_ptr c < next_ptr ?w6"
  proof
    fix c assume "c \<in> set ([] @ ?cs)"
    then have "ti_ptr c \<in> set (map ti_ptr ?cs)" by simp
    then have "ti_ptr c \<in> set (map ti_ptr (ti_children t))" by (simp only: ptr)
    then have "ti_ptr c \<in> ti_ptr ` set (ti_children t)" by (simp only: set_map)
    then obtain c0 where "c0 \<in> set (ti_children t)" "ti_ptr c0 = ti_ptr c" by (metis imageE)
    with fp have "ti_ptr c < next_ptr w" by (auto simp: fresh_pointers_def list_all_iff)
    with np show "ti_ptr c < next_ptr ?w6" by simp
  qed
  have mm: "\<forall>y\<in>set ?items. m y = map_option ti_ptr (find (\<lambda>c. ti_data c = Some y) ?cs)"
    using m by (simp add: maps_children_def)
  have "map ti_data (snd (add_items_loop L m ?w6 ([] @ ?cs) 0 ?items)) = map ti_data [] @ map Some ?items"
    using di sub mm dp lt by (rule add_items_loop_order) simp
  then have "map ti_data (snd (add_items_loop L m ?w6 ?cs 0 ?items)) = map Some ?items" by simp
  with ex items show ?thesis
    by (cases "add_items_loop L m ?w6 ?cs 0 ?items") (simp add: synchronizeTreeItem_unfold)
qed

text \<open>
  C3, as stated, for any tree item: a tree item for a group with the rules \<open>a\<close> and
  \<open>b\<close> whose children mirror \<open>b\<close> and \<open>a\<close>, in this order, keeps them in this order.
  The children found are used again where they stand.
\<close>

theorem synchronized_children_counterexample:
  "map ti_data (ti_children (snd (synchronizeTreeItem example_oscap ex_window ex_tree_ba ex_group_ab True)))
     \<noteq> map Some (xccdf_get_values ex_group_ab @ xccdf_get_content ex_group_ab)"
proof -
  have "map ti_data (ti_children (snd (synchronizeTreeItem example_oscap ex_window ex_tree_ba ex_group_ab True)))
          = [Some ex_rule_b, Some ex_rule_a]"
    unfolding ex_window_def by code_simp
  moreover have "ex_rule_a \<noteq> ex_rule_b" by (simp add: ex_rule_a_def ex_rule_b_def)
  ultimately show ?thesis by (simp add: ex_group_ab_def)
qed

text \<open>
  A child that mirrors no child of the item is deleted, but the loop that deletes goes on
  to the next index, so the child that moved into the place of the deleted one is not
  looked at: of two such children in a row the second one stays.
\<close>

lemma stale_child_survives:
  "map ti_data (ti_children (snd (synchronizeTreeItem example_oscap ex_window ex_tree_stale ex_group_ab True)))
     = [Some ex_rule_a, Some ex_rule_b, Some ex_rule_c]"
  unfolding ex_window_def by code_simp

theorem synchronized_children_in_document_order_witness:
  "mirrors_in_order ex_tree_b ex_group_ab \<and> fresh_pointers ex_window ex_tree_b \<and>
   map ti_data (ti_children (snd (synchronizeTreeItem example_oscap ex_window ex_tree_b ex_group_ab True)))
     = [Some ex_rule_a, Some ex_rule_b]"
proof -
  have 1: "xccdf_item_get_type ex_group_ab = XCCDF_GROUP \<or> xccdf_item_get_type ex_group_ab = XCCDF_BENCHMARK"
    by (simp add: ex_group_ab_def)
  have 2: "distinct (xccdf_get_values ex_group_ab @ xccdf_get_content ex_group_ab)"
    by (simp add: ex_group_ab_def ex_rule_a_def ex_rule_b_def)
  have 3: "mirrors_in_order ex_tree_b ex_group_ab"
    by (simp add: mirrors_in_order_def ex_tree_b_def ex_group_ab_def ex_mirror_def)
  have "next_ptr ex_window = 5" unfolding ex_window_def by code_simp
  then have 4: "fresh_pointers ex_window ex_tree_b"
    by (simp add: fresh_pointers_def ex_tree_b_def ex_mirror_def)
  from synchronized_children_in_document_order [OF 1 2 3 4, of example_oscap] 3 4
  show ?thesis by (simp add: ex_group_ab_def)
qed

subsection \<open>The counter of synchronizations\<close>

lemma synchronized_window_log:
  "\<exists>tl. itemChanged_log (synchronized_window w x) =
          itemChanged_log w @ (mSynchronizeItemLock w + 1) # tl \<and>
        (\<forall>l\<in>set tl. mSynchronizeItemLock w < l)"
  unfolding synchronized_window_def signal_itemChanged_def Let_def by simp

lemma synchronizes_log:
  assumes "synchronizes k w w'"
  obtains new where "itemChanged_log w' = itemChanged_log w @ new" "\<forall>l\<in>set new. k < l"
  using assms unfolding synchronizes_def by auto

lemma synchronizeTreeItem_log:
  "\<exists>new. itemChanged_log (fst (synchronizeTreeItem L w t x r)) =
           itemChanged_log w @ (mSynchronizeItemLock w + 1) # new \<and>
         (\<forall>l\<in>set new. mSynchronizeItemLock w < l)"
proof -
  let ?k = "mSynchronizeItemLock w"
  let ?w6 = "synchronized_window w x"
  obtain tl where tl: "itemChanged_log ?w6 = itemChanged_log w @ (?k + 1) # tl" "\<forall>l\<in>set tl. ?k < l"
    using synchronized_window_log [of w x] by blast
  show ?thesis
  proof (cases r)
    case False
    with tl show ?thesis by (simp add: synchronizeTreeItem_unfold)
  next
    case True
    obtain children m where e: "existing_items_loop (itemsToAdd_of x)
        (ti_children (synchronized_item L w t x)) 0 Map.empty = (children, m)"
      by (cases "existing_items_loop (itemsToAdd_of x) (ti_children (synchronized_item L w t x)) 0 Map.empty")
    obtain w' children' where a: "add_items_loop L m ?w6 children 0 (itemsToAdd_of x) = (w', children')"
      by (cases "add_items_loop L m ?w6 children 0 (itemsToAdd_of x)")
    have "synchronizes ?k (w\<lparr>mSynchronizeItemLock := ?k + 1\<rparr>) ?w6"
      by (rule synchronized_window_synchronizes)
    then have l: "mSynchronizeItemLock ?w6 = ?k + 1" by (simp add: synchronizes_lock)
    have "synchronizes (mSynchronizeItemLock ?w6) ?w6 (fst (add_items_loop L m ?w6 children 0 (itemsToAdd_of x)))"
      by (rule add_items_loop_synchronizes) (rule synchronizeTreeItem_synchronizes)
    with a l have "synchronizes (?k + 1) ?w6 w'" by simp
    then obtain new where new: "itemChanged_log w' = itemChanged_log ?w6 @ new" "\<forall>l\<in>set new. ?k + 1 < l"
      by (rule synchronizes_log)
    from new(2) have "\<forall>l\<in>set new. ?k < l" by auto
    with tl have "\<forall>l\<in>set (tl @ new). ?k < l" by auto
    moreover from new(1) tl(1) have "itemChanged_log w' = itemChanged_log w @ (?k + 1) # (tl @ new)"
      by simp
    ultimately show ?thesis using True e a
      by (simp add: synchronizeTreeItem_unfold)
  qed
qed

text \<open>
  C5. \<^verbatim>\<open>synchronizeTreeItem\<close> returns with the counter as it found it. Every change of
  a tree item it signals, its own and those of its recursive calls, is signalled at a
  counter above the one on entry, the first one at the counter on entry plus one: the
  counter is incremented before the first change and decremented after the last. The undo
  stack is untouched. While the counter is not zero, \<^verbatim>\<open>itemChanged\<close> returns the
  window unchanged: it makes and pushes no command.
\<close>

theorem synchronize_brackets_counter:
  "mSynchronizeItemLock (fst (synchronizeTreeItem L w treeItem xccdfItem recursive)) =
     mSynchronizeItemLock w \<and>
   (\<exists>new. itemChanged_log (fst (synchronizeTreeItem L w treeItem xccdfItem recursive)) =
            itemChanged_log w @ (mSynchronizeItemLock w + 1) # new \<and>
          (\<forall>l\<in>set new. mSynchronizeItemLock w < l)) \<and>
   mUndoStack (fst (synchronizeTreeItem L w treeItem xccdfItem recursive)) = mUndoStack w \<and>
   (0 < mSynchronizeItemLock w \<longrightarrow> itemChanged L w p = Inr w)"
proof -
  have s: "synchronizes (mSynchronizeItemLock w) w (fst (synchronizeTreeItem L w treeItem xccdfItem recursive))"
    by (rule synchronizeTreeItem_synchronizes)
  from synchronizes_lock [OF s] synchronizes_fields(3) [OF s]
    synchronizeTreeItem_log [of L w treeItem xccdfItem recursive]
  show ?thesis by (simp add: itemChanged_def)
qed

theorem synchronize_brackets_counter_witness:
  "mSynchronizeItemLock (fst (synchronizeTreeItem example_oscap ex_window ex_tree_b ex_group_ab True)) = 0 \<and>
   drop (length (itemChanged_log ex_window))
     (itemChanged_log (fst (synchronizeTreeItem example_oscap ex_window ex_tree_b ex_group_ab True))) =
     [1, 1, 1, 1, 1, 1, 1, 2, 2, 2, 2, 2, 2, 2, 2, 2, 2, 2, 2, 2, 2] \<and>
   itemChanged example_oscap (ex_window\<lparr>mSynchronizeItemLock := 1\<rparr>) 4 =
     Inr (ex_window\<lparr>mSynchronizeItemLock := 1\<rparr>)"
proof -
  have "drop (length (itemChanged_log ex_window))
     (itemChanged_log (fst (synchronizeTreeItem example_oscap ex_window ex_tree_b ex_group_ab True))) =
     [1, 1, 1, 1, 1, 1, 1, 2, 2, 2, 2, 2, 2, 2, 2, 2, 2, 2, 2, 2, 2]"
    unfolding ex_window_def by code_simp
  with synchronize_brackets_counter [of example_oscap ex_window ex_tree_b ex_group_ab True 4]
    synchronize_brackets_counter [of example_oscap "ex_window\<lparr>mSynchronizeItemLock := 1\<rparr>"
      ex_tree_b ex_group_ab True 4]
  show ?thesis by (simp add: ex_window_lock)
qed

section \<open>Undoing what the user did\<close>

subsection \<open>A command undone after it was executed\<close>

lemma agree_refl [simp]: "agree S e e"
  by (cases e) (simp add: agree_def)







subsection \<open>One action of the user\<close>








subsection \<open>The state that undoing leads to\<close>













subsection \<open>The example window, its actions undone\<close>









end
